theory Spec2Isabelle
  imports Complex_Main "HOL-Library.Sublist"
begin

section \<open>The BMCS client of the cloud controller manager (pkg/bmcs/client/client.go)\<close>

text \<open>
  The client wraps the BMCS SDK (\<^verbatim>\<open>baremetal.Client\<close>) and adds the lookups, the
  pagination loops and the work-request polling that the cloud controller manager needs.
  The SDK is an external collaborator: every SDK call is a network request whose answer
  may depend on, and may change, the state of the cloud backend. The model therefore
  threads a state through every function of the client: the backend's own state, of an
  arbitrary type \<open>'w\<close>, and the list of SDK calls issued so far.
\<close>

subsection \<open>Data of the SDK, restricted to the fields the client reads\<close>

text \<open>Lifecycle states are strings in the SDK; these are its constants.\<close>

definition ResourceRunning :: string where "ResourceRunning = ''RUNNING''"
definition ResourceAttached :: string where "ResourceAttached = ''ATTACHED''"
definition ResourceAvailable :: string where "ResourceAvailable = ''AVAILABLE''"
definition WorkRequestSucceeded :: string where "WorkRequestSucceeded = ''SUCCEEDED''"
definition WorkRequestFailed :: string where "WorkRequestFailed = ''FAILED''"

record Instance =
  Instance_ID :: string
  Instance_DisplayName :: string
  Instance_State :: string

record VnicAttachment =
  Attachment_ID :: string
  Attachment_InstanceID :: string
  Attachment_VnicID :: string
  Attachment_State :: string

record Vnic =
  Vnic_ID :: string
  Vnic_HostnameLabel :: string
  Vnic_PrivateIPAddress :: string
  Vnic_PublicIPAddress :: string
  Vnic_SubnetID :: string
  Vnic_State :: string

record Subnet =
  Subnet_ID :: string
  Subnet_SecurityListIDs :: "string list"

record WorkRequest =
  WorkRequest_ID :: string
  WorkRequest_LoadBalancerID :: string
  WorkRequest_State :: string
  WorkRequest_Message :: string

record LoadBalancer =
  LoadBalancer_ID :: string
  LoadBalancer_DisplayName :: string

record BackendSet =
  BackendSet_Name :: string
  BackendSet_Policy :: string
  BackendSet_Backends :: "(string \<times> int) list"
  BackendSet_HealthChecker :: "string option"
  BackendSet_SSLConfig :: "string option"
  BackendSet_SessionPersistenceConfig :: "string option"

record Listener =
  Listener_Name :: string
  Listener_DefaultBackendSetName :: string
  Listener_Protocol :: string
  Listener_Port :: int
  Listener_SSLConfig :: "string option"

text \<open>
  List options: \<open>Page\<close> is the cursor of \<^verbatim>\<open>PageListOptions\<close>; the empty string is
  the absent cursor. A page of a listing carries its items and, in the embedded
  \<^verbatim>\<open>ResourceContainer\<close>, the cursor \<open>NextPage\<close> of the page after it.
\<close>

record ListOptions =
  Page :: string

record ListInstancesOptions = ListOptions +
  DisplayName :: string

record ListVnicAttachmentsOptions = ListOptions +
  InstanceID :: string

record ResourceContainer =
  NextPage :: string

record ListInstances = ResourceContainer +
  Instances :: "Instance list"

record ListVnicAttachments = ResourceContainer +
  Attachments :: "VnicAttachment list"

record ListLoadBalancers = ResourceContainer +
  LoadBalancers :: "LoadBalancer list"

subsection \<open>Errors\<close>

text \<open>
  Every error value the client builds, with the arguments of its format string. \<open>SdkError\<close>
  is any error returned by an SDK call; \<open>ErrWaitTimeout\<close> is the error of the polling
  helper \<^verbatim>\<open>wait.ExponentialBackoff\<close>. \<open>SearchError\<close> carries the \<^verbatim>\<open>NotFound\<close> flag.
  \<open>NilDereference\<close> is the panic of reading a field through a nil pointer.
\<close>

datatype search_message =
    CouldNotFindInstance string
  | CouldNotFindLoadBalancer string

datatype error =
    SdkError string
  | BlankNodeName
  | ExpectedOneByDisplayName string nat
  | ExpectedOneByVnic string nat
  | SearchError search_message bool
  | BlankInstanceID
  | NilVnic
  | InvalidPrivateAddress string
  | InvalidPublicAddress string
  | WorkRequestFailedError string string
  | ErrWaitTimeout
  | NilDereference

subsection \<open>The SDK and the state threaded through the client\<close>

datatype call =
    ListInstancesCall string ListInstancesOptions
  | ListVnicAttachmentsCall string "ListVnicAttachmentsOptions option"
  | ListLoadBalancersCall string ListOptions
  | GetVnicCall string
  | GetInstanceCall string
  | GetSubnetCall string
  | GetWorkRequestCall string
  | CreateLoadBalancerCall string string "string list" string
  | GetLoadBalancerCall string
  | CreateBackendSetCall string BackendSet
  | GetBackendSetCall string string
  | CreateListenerCall string Listener

record 'w st =
  calls :: "call list"
  world :: 'w

record 'w baremetal_Client =
  sdkListInstances :: "string \<Rightarrow> ListInstancesOptions \<Rightarrow> 'w \<Rightarrow> (error + ListInstances) \<times> 'w"
  sdkListVnicAttachments ::
    "string \<Rightarrow> ListVnicAttachmentsOptions option \<Rightarrow> 'w \<Rightarrow> (error + ListVnicAttachments) \<times> 'w"
  sdkListLoadBalancers :: "string \<Rightarrow> ListOptions \<Rightarrow> 'w \<Rightarrow> (error + ListLoadBalancers) \<times> 'w"
  sdkGetVnic :: "string \<Rightarrow> 'w \<Rightarrow> (error + Vnic) \<times> 'w"
  sdkGetInstance :: "string \<Rightarrow> 'w \<Rightarrow> (error + Instance) \<times> 'w"
  sdkGetSubnet :: "string \<Rightarrow> 'w \<Rightarrow> (error + Subnet) \<times> 'w"
  sdkGetWorkRequest :: "string \<Rightarrow> 'w \<Rightarrow> (error + WorkRequest) \<times> 'w"
  sdkCreateLoadBalancer ::
    "string \<Rightarrow> string \<Rightarrow> string list \<Rightarrow> string \<Rightarrow> 'w \<Rightarrow> (error + string) \<times> 'w"
  sdkGetLoadBalancer :: "string \<Rightarrow> 'w \<Rightarrow> (error + LoadBalancer) \<times> 'w"
  sdkCreateBackendSet :: "string \<Rightarrow> BackendSet \<Rightarrow> 'w \<Rightarrow> (error + string) \<times> 'w"
  sdkGetBackendSet :: "string \<Rightarrow> string \<Rightarrow> 'w \<Rightarrow> (error + BackendSet) \<times> 'w"
  sdkCreateListener :: "string \<Rightarrow> Listener \<Rightarrow> 'w \<Rightarrow> (error + string) \<times> 'w"

record 'w client =
  Client :: "'w baremetal_Client"
  compartmentOCID :: string

text \<open>An SDK call is recorded, then answered by the backend, whose state it may change.\<close>

definition invoke :: "call \<Rightarrow> ('w \<Rightarrow> 'r \<times> 'w) \<Rightarrow> 'w st \<Rightarrow> 'r \<times> 'w st" where
  "invoke cl f s =
     (case f (world s) of (r, w') \<Rightarrow> (r, \<lparr>calls = calls s @ [cl], world = w'\<rparr>))"

definition ListInstances ::
  "'w client \<Rightarrow> string \<Rightarrow> ListInstancesOptions \<Rightarrow> 'w st \<Rightarrow> (error + ListInstances) \<times> 'w st" where
  "ListInstances c compartment opts = invoke (ListInstancesCall compartment opts) (sdkListInstances (Client c) compartment opts)"

definition ListVnicAttachments ::
  "'w client \<Rightarrow> string \<Rightarrow> ListVnicAttachmentsOptions option \<Rightarrow> 'w st
    \<Rightarrow> (error + ListVnicAttachments) \<times> 'w st" where
  "ListVnicAttachments c compartment opts =
     invoke (ListVnicAttachmentsCall compartment opts) (sdkListVnicAttachments (Client c) compartment opts)"

definition ListLoadBalancers ::
  "'w client \<Rightarrow> string \<Rightarrow> ListOptions \<Rightarrow> 'w st \<Rightarrow> (error + ListLoadBalancers) \<times> 'w st" where
  "ListLoadBalancers c compartment opts =
     invoke (ListLoadBalancersCall compartment opts) (sdkListLoadBalancers (Client c) compartment opts)"

definition GetVnic :: "'w client \<Rightarrow> string \<Rightarrow> 'w st \<Rightarrow> (error + Vnic) \<times> 'w st" where
  "GetVnic c ocid = invoke (GetVnicCall ocid) (sdkGetVnic (Client c) ocid)"

definition GetInstance :: "'w client \<Rightarrow> string \<Rightarrow> 'w st \<Rightarrow> (error + Instance) \<times> 'w st" where
  "GetInstance c ocid = invoke (GetInstanceCall ocid) (sdkGetInstance (Client c) ocid)"

definition GetSubnet :: "'w client \<Rightarrow> string \<Rightarrow> 'w st \<Rightarrow> (error + Subnet) \<times> 'w st" where
  "GetSubnet c ocid = invoke (GetSubnetCall ocid) (sdkGetSubnet (Client c) ocid)"

definition GetWorkRequest :: "'w client \<Rightarrow> string \<Rightarrow> 'w st \<Rightarrow> (error + WorkRequest) \<times> 'w st" where
  "GetWorkRequest c ocid = invoke (GetWorkRequestCall ocid) (sdkGetWorkRequest (Client c) ocid)"

definition CreateLoadBalancer ::
  "'w client \<Rightarrow> string \<Rightarrow> string \<Rightarrow> string list \<Rightarrow> string \<Rightarrow> 'w st \<Rightarrow> (error + string) \<times> 'w st" where
  "CreateLoadBalancer c compartment shape subnets name =
     invoke (CreateLoadBalancerCall compartment shape subnets name)
       (sdkCreateLoadBalancer (Client c) compartment shape subnets name)"

definition GetLoadBalancer :: "'w client \<Rightarrow> string \<Rightarrow> 'w st \<Rightarrow> (error + LoadBalancer) \<times> 'w st" where
  "GetLoadBalancer c ocid = invoke (GetLoadBalancerCall ocid) (sdkGetLoadBalancer (Client c) ocid)"

definition CreateBackendSet ::
  "'w client \<Rightarrow> string \<Rightarrow> BackendSet \<Rightarrow> 'w st \<Rightarrow> (error + string) \<times> 'w st" where
  "CreateBackendSet c lbID bs =
     invoke (CreateBackendSetCall lbID bs) (sdkCreateBackendSet (Client c) lbID bs)"

definition GetBackendSet ::
  "'w client \<Rightarrow> string \<Rightarrow> string \<Rightarrow> 'w st \<Rightarrow> (error + BackendSet) \<times> 'w st" where
  "GetBackendSet c lbID name =
     invoke (GetBackendSetCall lbID name) (sdkGetBackendSet (Client c) lbID name)"

definition CreateListener ::
  "'w client \<Rightarrow> string \<Rightarrow> Listener \<Rightarrow> 'w st \<Rightarrow> (error + string) \<times> 'w st" where
  "CreateListener c lbID l =
     invoke (CreateListenerCall lbID l) (sdkCreateListener (Client c) lbID l)"

subsection \<open>Pagination helper\<close>

text \<open>
  Modelled from the spec: \<^verbatim>\<open>SetNextPageOption\<close> is a helper of this package whose
  source is not part of the file under study. The spec: the listing is invoked
  repeatedly, "feeding back the cursor, until no cursor is returned", and the "absence
  [of a cursor] signals end of the result set". The helper stores the cursor in the
  options and reports whether there was one; it returns the new value of the options'
  \<open>Page\<close> field, which the Go code updates through a pointer.
\<close>

definition SetNextPageOption :: "string \<Rightarrow> string \<Rightarrow> bool \<times> string" where
  "SetNextPageOption nextPage page = (if nextPage = [] then (False, page) else (True, nextPage))"

subsection \<open>GetInstanceByNodeName\<close>

text \<open>The inner loop of the display-name stage: append the Running instances of a page.\<close>

primrec appendRunning :: "Instance list \<Rightarrow> Instance list \<Rightarrow> Instance list" where
  "appendRunning running [] = running"
| "appendRunning running (i # rest) =
     appendRunning (if Instance_State i = ResourceRunning then running @ [i] else running) rest"

text \<open>
  The outer loop. It has no bound of its own: it ends when a page has no cursor, or with
  the error of a failed call. \<open>None\<close> is the run that never returns.
\<close>

partial_function (option) listRunningInstances ::
  "'w client \<Rightarrow> ListInstancesOptions \<Rightarrow> Instance list \<Rightarrow> 'w st
    \<Rightarrow> ((error + Instance list) \<times> 'w st) option" where
  "listRunningInstances c opts running s =
     (case ListInstances c (compartmentOCID c) opts s of
        (Inl err, s') \<Rightarrow> Some (Inl err, s')
      | (Inr r, s') \<Rightarrow>
          (let running' = appendRunning running (Instances r);
               (hasNexPage, page') = SetNextPageOption (NextPage r) (Page opts)
           in if \<not> hasNexPage then Some (Inr running', s')
              else listRunningInstances c (opts\<lparr>Page := page'\<rparr>) running' s'))"

text \<open>The scan of one page of attachments in the fallback stage.\<close>

fun scanAttachments ::
  "'w client \<Rightarrow> string \<Rightarrow> VnicAttachment list \<Rightarrow> Instance list \<Rightarrow> 'w st
    \<Rightarrow> (error + Instance list) \<times> 'w st" where
  "scanAttachments c nodeName [] running s = (Inr running, s)"
| "scanAttachments c nodeName (attachment # rest) running s =
     (if Attachment_State attachment = ResourceAttached then
        (case GetVnic c (Attachment_VnicID attachment) s of
           (Inl err, s') \<Rightarrow> (Inl err, s')
         | (Inr vnic, s') \<Rightarrow>
             if Vnic_PublicIPAddress vnic = nodeName \<or>
                (Vnic_HostnameLabel vnic \<noteq> [] \<and> prefix (Vnic_HostnameLabel vnic) nodeName)
             then
               (case GetInstance c (Attachment_InstanceID attachment) s' of
                  (Inl err, s'') \<Rightarrow> (Inl err, s'')
                | (Inr instance, s'') \<Rightarrow>
                    scanAttachments c nodeName rest
                      (if Instance_State instance = ResourceRunning then running @ [instance]
                       else running) s'')
             else scanAttachments c nodeName rest running s')
      else scanAttachments c nodeName rest running s)"

partial_function (option) scanVnicAttachments ::
  "'w client \<Rightarrow> string \<Rightarrow> ListVnicAttachmentsOptions \<Rightarrow> Instance list \<Rightarrow> 'w st
    \<Rightarrow> ((error + Instance list) \<times> 'w st) option" where
  "scanVnicAttachments c nodeName opts running s =
     (case ListVnicAttachments c (compartmentOCID c) (Some opts) s of
        (Inl err, s') \<Rightarrow> Some (Inl err, s')
      | (Inr vnicAttachments, s') \<Rightarrow>
          (case scanAttachments c nodeName (Attachments vnicAttachments) running s' of
             (Inl err, s'') \<Rightarrow> Some (Inl err, s'')
           | (Inr running', s'') \<Rightarrow>
               (let (hasNextPage, page') =
                      SetNextPageOption (NextPage vnicAttachments) (Page opts)
                in if \<not> hasNextPage then Some (Inr running', s'')
                   else scanVnicAttachments c nodeName (opts\<lparr>Page := page'\<rparr>) running' s'')))"

definition findInstanceByNodeNameIsVnic ::
  "'w client \<Rightarrow> string \<Rightarrow> 'w st \<Rightarrow> ((error + Instance) \<times> 'w st) option" where
  "findInstanceByNodeNameIsVnic c nodeName s =
     (case scanVnicAttachments c nodeName \<lparr>Page = [], InstanceID = []\<rparr> [] s of
        None \<Rightarrow> None
      | Some (Inl err, s') \<Rightarrow> Some (Inl err, s')
      | Some (Inr running, s') \<Rightarrow>
          (let count = length running
           in if count = 0 then Some (Inl (SearchError (CouldNotFindInstance nodeName) True), s')
              else if count > 1 then Some (Inl (ExpectedOneByVnic nodeName count), s')
              else Some (Inr (running ! 0), s')))"

definition GetInstanceByNodeName ::
  "'w client \<Rightarrow> string \<Rightarrow> 'w st \<Rightarrow> ((error + Instance) \<times> 'w st) option" where
  "GetInstanceByNodeName c nodeName s =
     (if nodeName = [] then Some (Inl BlankNodeName, s)
      else
        (case listRunningInstances c \<lparr>Page = [], DisplayName = nodeName\<rparr> [] s of
           None \<Rightarrow> None
         | Some (Inl err, s') \<Rightarrow> Some (Inl err, s')
         | Some (Inr running, s') \<Rightarrow>
             (let count = length running
              in if count = 0 then findInstanceByNodeNameIsVnic c nodeName s'
                 else if count > 1 then Some (Inl (ExpectedOneByDisplayName nodeName count), s')
                 else Some (Inr (running ! 0), s'))))"

subsection \<open>Node addresses\<close>

datatype NodeAddressType = NodeInternalIP | NodeExternalIP

record NodeAddress =
  NodeAddress_Type :: NodeAddressType
  NodeAddress_Address :: string

text \<open>
  \<^verbatim>\<open>net.ParseIP\<close> and \<^verbatim>\<open>IP.String\<close> belong to the Go standard library. They are
  parameters of the model: \<open>ParseIP\<close> returns \<open>None\<close> for Go's nil \<^verbatim>\<open>IP\<close>, that is for
  a string that is not the text of an IP address, and \<open>String\<close> prints a parsed address.
  The argument is a pointer in Go; \<open>None\<close> is the nil pointer.
\<close>

definition extractNodeAddressesFromVnic ::
  "(string \<Rightarrow> 'ip option) \<Rightarrow> ('ip \<Rightarrow> string) \<Rightarrow> Vnic option \<Rightarrow> error + NodeAddress list" where
  "extractNodeAddressesFromVnic ParseIP String vnic =
     (case vnic of
        None \<Rightarrow> Inl NilVnic
      | Some v \<Rightarrow>
          (let addresses = [];
               ip = ParseIP (Vnic_PrivateIPAddress v)
           in case (if Vnic_PrivateIPAddress v \<noteq> [] then
                      (case ip of
                         None \<Rightarrow> Inl (InvalidPrivateAddress (Vnic_PrivateIPAddress v))
                       | Some a \<Rightarrow>
                           Inr (addresses @
                             [\<lparr>NodeAddress_Type = NodeInternalIP, NodeAddress_Address = String a\<rparr>]))
                    else Inr addresses) of
                Inl err \<Rightarrow> Inl err
              | Inr addresses \<Rightarrow>
                  if Vnic_PublicIPAddress v \<noteq> [] then
                    (case ParseIP (Vnic_PublicIPAddress v) of
                       None \<Rightarrow> Inl (InvalidPublicAddress (Vnic_PublicIPAddress v))
                     | Some a \<Rightarrow>
                         Inr (addresses @
                           [\<lparr>NodeAddress_Type = NodeExternalIP, NodeAddress_Address = String a\<rparr>]))
                  else Inr addresses))"

subsection \<open>GetAttachedVnicsForInstance\<close>

fun availableVnics ::
  "'w client \<Rightarrow> VnicAttachment list \<Rightarrow> Vnic list \<Rightarrow> 'w st \<Rightarrow> (error + Vnic list) \<times> 'w st" where
  "availableVnics c [] vnics s = (Inr vnics, s)"
| "availableVnics c (att # rest) vnics s =
     (if Attachment_State att \<noteq> ResourceAttached then availableVnics c rest vnics s
      else
        (case GetVnic c (Attachment_VnicID att) s of
           (Inl err, s') \<Rightarrow> (Inl err, s')
         | (Inr v, s') \<Rightarrow>
             if Vnic_State v \<noteq> ResourceAvailable then availableVnics c rest vnics s'
             else availableVnics c rest (vnics @ [v]) s'))"

partial_function (option) listAttachedVnics ::
  "'w client \<Rightarrow> ListVnicAttachmentsOptions \<Rightarrow> Vnic list \<Rightarrow> 'w st
    \<Rightarrow> ((error + Vnic list) \<times> 'w st) option" where
  "listAttachedVnics c opts vnics s =
     (case ListVnicAttachments c (compartmentOCID c) (Some opts) s of
        (Inl err, s') \<Rightarrow> Some (Inl err, s')
      | (Inr r, s') \<Rightarrow>
          (case availableVnics c (Attachments r) vnics s' of
             (Inl err, s'') \<Rightarrow> Some (Inl err, s'')
           | (Inr vnics', s'') \<Rightarrow>
               (let (hasNexPage, page') = SetNextPageOption (NextPage r) (Page opts)
                in if \<not> hasNexPage then Some (Inr vnics', s'')
                   else listAttachedVnics c (opts\<lparr>Page := page'\<rparr>) vnics' s'')))"

definition GetAttachedVnicsForInstance ::
  "'w client \<Rightarrow> string \<Rightarrow> 'w st \<Rightarrow> ((error + Vnic list) \<times> 'w st) option" where
  "GetAttachedVnicsForInstance c ocid s =
     (if ocid = [] then Some (Inl BlankInstanceID, s)
      else listAttachedVnics c \<lparr>Page = [], InstanceID = ocid\<rparr> [] s)"

subsection \<open>AwaitWorkRequest\<close>

text \<open>
  The schedule handed to \<^verbatim>\<open>wait.ExponentialBackoff\<close>. A duration is a number of
  nanoseconds, as \<^verbatim>\<open>time.Duration\<close> is.
\<close>

record Backoff =
  Duration :: int
  Factor :: rat
  Jitter :: rat
  Steps :: int

definition Second :: int where "Second = 1000000000"

definition backoff :: Backoff where
  "backoff = \<lparr>Duration = 2 * Second, Factor = 5 / 4, Jitter = 1 / 10, Steps = 15\<rparr>"

text \<open>
  \<^verbatim>\<open>wait.ExponentialBackoff\<close> belongs to the Kubernetes library, not to this package. It
  runs the condition at most \<open>Steps\<close> times: an attempt that returns an error ends the
  wait with that error, an attempt that returns true ends it without error, and when
  every attempt has returned false without error the wait ends with \<open>ErrWaitTimeout\<close>.
  Between two attempts it sleeps, for the time that \<open>Duration\<close>, \<open>Factor\<close> and \<open>Jitter\<close>
  give; the sleep changes nothing that the client reads, so \<open>attempts\<close> has no step
  for it: it is the wait without its clock, and the wait with its clock follows below.
  The condition is a closure; \<open>'v\<close> is the state it works on.
\<close>

primrec attempts ::
  "nat \<Rightarrow> ('v \<Rightarrow> (bool \<times> error option) \<times> 'v) \<Rightarrow> 'v \<Rightarrow> error option \<times> 'v" where
  "attempts 0 condition v = (Some ErrWaitTimeout, v)"
| "attempts (Suc n) condition v =
     (case condition v of
        ((ok, err), v') \<Rightarrow> if err \<noteq> None \<or> ok then (err, v') else attempts n condition v')"

definition ExponentialBackoff ::
  "Backoff \<Rightarrow> ('v \<Rightarrow> (bool \<times> error option) \<times> 'v) \<Rightarrow> 'v \<Rightarrow> error option \<times> 'v" where
  "ExponentialBackoff b condition v = attempts (nat (Steps b)) condition v"

text \<open>
  The closure of \<open>AwaitWorkRequest\<close>: one poll. It works on the variable \<open>wr\<close> of the
  enclosing function and on the state of the client.
\<close>

definition pollWorkRequest ::
  "'w client \<Rightarrow> string \<Rightarrow> WorkRequest option \<times> 'w st
    \<Rightarrow> (bool \<times> error option) \<times> (WorkRequest option \<times> 'w st)" where
  "pollWorkRequest c ocid = (\<lambda>(wr, s).
     case GetWorkRequest c ocid s of
       (Inl reqErr, s') \<Rightarrow> ((False, Some reqErr), (wr, s'))
     | (Inr twr, s') \<Rightarrow>
         if WorkRequest_State twr = WorkRequestSucceeded then ((True, None), (Some twr, s'))
         else if WorkRequest_State twr = WorkRequestFailed then
           ((False, Some (WorkRequestFailedError ocid (WorkRequest_Message twr))), (wr, s'))
         else ((False, None), (wr, s')))"

text \<open>The result is the pair that the Go function returns: the work request, or nil, and the error, or nil.\<close>

definition AwaitWorkRequest ::
  "'w client \<Rightarrow> string \<Rightarrow> 'w st \<Rightarrow> (WorkRequest option \<times> error option) \<times> 'w st" where
  "AwaitWorkRequest c ocid s =
     (case ExponentialBackoff backoff (pollWorkRequest c ocid) (None, s) of
        (err, (wr, s')) \<Rightarrow> ((wr, err), s'))"

subsection \<open>The clock of the wait\<close>







subsection \<open>Create and await\<close>

definition CreateAndAwaitLoadBalancer ::
  "'w client \<Rightarrow> string \<Rightarrow> string \<Rightarrow> string list \<Rightarrow> 'w st \<Rightarrow> (error + LoadBalancer) \<times> 'w st" where
  "CreateAndAwaitLoadBalancer c name shape subnets s =
     (case CreateLoadBalancer c (compartmentOCID c) shape subnets name s of
        (Inl err, s1) \<Rightarrow> (Inl err, s1)
      | (Inr req, s1) \<Rightarrow>
          (case AwaitWorkRequest c req s1 of
             ((_, Some err), s2) \<Rightarrow> (Inl err, s2)
           | ((None, None), s2) \<Rightarrow> (Inl NilDereference, s2)
           | ((Some result, None), s2) \<Rightarrow> GetLoadBalancer c (WorkRequest_LoadBalancerID result) s2))"

definition CreateAndAwaitBackendSet ::
  "'w client \<Rightarrow> LoadBalancer \<Rightarrow> BackendSet \<Rightarrow> 'w st \<Rightarrow> (error + BackendSet) \<times> 'w st" where
  "CreateAndAwaitBackendSet c lb bs s =
     (case CreateBackendSet c (LoadBalancer_ID lb) bs s of
        (Inl err, s1) \<Rightarrow> (Inl err, s1)
      | (Inr wr, s1) \<Rightarrow>
          (case AwaitWorkRequest c wr s1 of
             ((_, Some err), s2) \<Rightarrow> (Inl err, s2)
           | ((_, None), s2) \<Rightarrow> GetBackendSet c (LoadBalancer_ID lb) (BackendSet_Name bs) s2))"

text \<open>\<open>CreateAndAwaitListener\<close> returns an error or nil, and nothing else.\<close>

definition CreateAndAwaitListener ::
  "'w client \<Rightarrow> LoadBalancer \<Rightarrow> Listener \<Rightarrow> 'w st \<Rightarrow> error option \<times> 'w st" where
  "CreateAndAwaitListener c lb listener s =
     (case CreateListener c (LoadBalancer_ID lb) listener s of
        (Inl err, s1) \<Rightarrow> (Some err, s1)
      | (Inr wr, s1) \<Rightarrow>
          (case AwaitWorkRequest c wr s1 of
             ((_, Some err), s2) \<Rightarrow> (Some err, s2)
           | ((_, None), s2) \<Rightarrow> (None, s2)))"

subsection \<open>GetLoadBalancerByName\<close>

text \<open>
  The loop returns from inside as soon as a page holds a load balancer of the given
  name; the error after the loop is reached when the last page had none.
\<close>

partial_function (option) searchLoadBalancers ::
  "'w client \<Rightarrow> string \<Rightarrow> ListOptions \<Rightarrow> 'w st \<Rightarrow> ((error + LoadBalancer) \<times> 'w st) option" where
  "searchLoadBalancers c name opts s =
     (case ListLoadBalancers c (compartmentOCID c) opts s of
        (Inl err, s') \<Rightarrow> Some (Inl err, s')
      | (Inr r, s') \<Rightarrow>
          (case find (\<lambda>lb. LoadBalancer_DisplayName lb = name) (LoadBalancers r) of
             Some lb \<Rightarrow> Some (Inr lb, s')
           | None \<Rightarrow>
               (let (hasNexPage, page') = SetNextPageOption (NextPage r) (Page opts)
                in if \<not> hasNexPage then
                     Some (Inl (SearchError (CouldNotFindLoadBalancer name) True), s')
                   else searchLoadBalancers c name (opts\<lparr>Page := page'\<rparr>) s')))"

definition GetLoadBalancerByName ::
  "'w client \<Rightarrow> string \<Rightarrow> 'w st \<Rightarrow> ((error + LoadBalancer) \<times> 'w st) option" where
  "GetLoadBalancerByName c name s = searchLoadBalancers c name \<lparr>Page = []\<rparr> s"

subsection \<open>GetSubnetsForInternalIPs\<close>

text \<open>The scan of one page: \<open>subnetOCIDs\<close> is the set of subnets fetched so far.\<close>

fun collectSubnets ::
  "'w client \<Rightarrow> string set \<Rightarrow> VnicAttachment list \<Rightarrow> string set \<Rightarrow> Subnet list \<Rightarrow> 'w st
    \<Rightarrow> (error + string set \<times> Subnet list) \<times> 'w st" where
  "collectSubnets c ipSet [] subnetOCIDs subnets s = (Inr (subnetOCIDs, subnets), s)"
| "collectSubnets c ipSet (attachment # rest) subnetOCIDs subnets s =
     (if Attachment_State attachment = ResourceAttached then
        (case GetVnic c (Attachment_VnicID attachment) s of
           (Inl err, s') \<Rightarrow> (Inl err, s')
         | (Inr vnic, s') \<Rightarrow>
             if Vnic_PrivateIPAddress vnic \<noteq> [] \<and> Vnic_PrivateIPAddress vnic \<in> ipSet \<and>
                Vnic_SubnetID vnic \<notin> subnetOCIDs
             then
               (case GetSubnet c (Vnic_SubnetID vnic) s' of
                  (Inl err, s'') \<Rightarrow> (Inl err, s'')
                | (Inr subnet, s'') \<Rightarrow>
                    collectSubnets c ipSet rest (insert (Vnic_SubnetID vnic) subnetOCIDs)
                      (subnets @ [subnet]) s'')
             else collectSubnets c ipSet rest subnetOCIDs subnets s')
      else collectSubnets c ipSet rest subnetOCIDs subnets s)"

text \<open>
  The loop stores the cursor in \<open>opts\<close>, and calls the listing with nil options, as the
  source does.
\<close>

partial_function (option) listSubnets ::
  "'w client \<Rightarrow> string set \<Rightarrow> ListVnicAttachmentsOptions \<Rightarrow> string set \<Rightarrow> Subnet list \<Rightarrow> 'w st
    \<Rightarrow> ((error + Subnet list) \<times> 'w st) option" where
  "listSubnets c ipSet opts subnetOCIDs subnets s =
     (case ListVnicAttachments c (compartmentOCID c) None s of
        (Inl err, s') \<Rightarrow> Some (Inl err, s')
      | (Inr r, s') \<Rightarrow>
          (case collectSubnets c ipSet (Attachments r) subnetOCIDs subnets s' of
             (Inl err, s'') \<Rightarrow> Some (Inl err, s'')
           | (Inr (subnetOCIDs', subnets'), s'') \<Rightarrow>
               (let (hasNexPage, page') = SetNextPageOption (NextPage r) (Page opts)
                in if \<not> hasNexPage then Some (Inr subnets', s'')
                   else listSubnets c ipSet (opts\<lparr>Page := page'\<rparr>) subnetOCIDs' subnets' s'')))"

definition GetSubnetsForInternalIPs ::
  "'w client \<Rightarrow> string list \<Rightarrow> 'w st \<Rightarrow> ((error + Subnet list) \<times> 'w st) option" where
  "GetSubnetsForInternalIPs c ips s =
     listSubnets c (set ips) \<lparr>Page = [], InstanceID = []\<rparr> {} [] s"

subsection \<open>What a backend answers\<close>

text \<open>
  The vocabulary of the statements below. \<open>serves list opts w pages\<close>: from the state
  \<open>w\<close> of the backend, a client that starts with the options \<open>opts\<close> and puts the
  cursor of each page into the next request is answered with \<open>pages\<close>, one after the
  other, and every page but the last of them carries a cursor.
\<close>

fun serves ::
  "('z ListOptions_scheme \<Rightarrow> 'w \<Rightarrow> (error + 'p ResourceContainer_scheme) \<times> 'w)
    \<Rightarrow> 'z ListOptions_scheme \<Rightarrow> 'w \<Rightarrow> 'p ResourceContainer_scheme list \<Rightarrow> bool" where
  "serves list opts w [] = True"
| "serves list opts w (p # ps) =
     (case list opts w of
        (r, w') \<Rightarrow>
          r = Inr p \<and> (ps \<noteq> [] \<longrightarrow> NextPage p \<noteq> [] \<and> serves list (opts\<lparr>Page := NextPage p\<rparr>) w' ps))"

text \<open>
  The options of the successive requests: those of the start, then, each time, the same
  options with the cursor of the page before.
\<close>

fun fedOptions ::
  "'z ListOptions_scheme \<Rightarrow> 'p ResourceContainer_scheme list \<Rightarrow> 'z ListOptions_scheme list" where
  "fedOptions opts [] = []"
| "fedOptions opts (p # ps) = opts # fedOptions (opts\<lparr>Page := NextPage p\<rparr>) ps"

text \<open>
  A listing that, whatever the state of the backend, answers a request with the same
  page: \<open>answers list opts pages\<close> when following the cursors from \<open>opts\<close> gives the
  pages in turn. It is the hypothesis for the loops that call the backend between two
  requests of the listing.
\<close>

fun answers ::
  "('z ListOptions_scheme \<Rightarrow> 'w \<Rightarrow> (error + 'p ResourceContainer_scheme) \<times> 'w)
    \<Rightarrow> 'z ListOptions_scheme \<Rightarrow> 'p ResourceContainer_scheme list \<Rightarrow> bool" where
  "answers list opts [] = True"
| "answers list opts (p # ps) =
     ((\<forall>w. fst (list opts w) = Inr p) \<and>
      (ps \<noteq> [] \<longrightarrow> NextPage p \<noteq> [] \<and> answers list (opts\<lparr>Page := NextPage p\<rparr>) ps))"

text \<open>
  The vnic scan in the words of the specification: a vnic matches a node name when its
  public IP is the name or its hostname label is not empty and a prefix of the name; the
  instances kept are the Running owners of the Attached attachments whose vnic matches.
  \<open>vnicOf\<close> and \<open>instanceOf\<close> are the vnics and the instances of the backend.
\<close>

definition matchesNodeName :: "string \<Rightarrow> Vnic \<Rightarrow> bool" where
  "matchesNodeName nodeName vnic \<longleftrightarrow>
     Vnic_PublicIPAddress vnic = nodeName \<or>
     (Vnic_HostnameLabel vnic \<noteq> [] \<and> prefix (Vnic_HostnameLabel vnic) nodeName)"

definition keptInstances ::
  "string \<Rightarrow> (string \<Rightarrow> Vnic) \<Rightarrow> (string \<Rightarrow> Instance) \<Rightarrow> VnicAttachment list \<Rightarrow> Instance list" where
  "keptInstances nodeName vnicOf instanceOf atts =
     filter (\<lambda>i. Instance_State i = ResourceRunning)
       (map (\<lambda>a. instanceOf (Attachment_InstanceID a))
          (filter (\<lambda>a. Attachment_State a = ResourceAttached \<and>
                        matchesNodeName nodeName (vnicOf (Attachment_VnicID a))) atts))"

text \<open>The requests for a page of a listing, among the calls.\<close>

fun listingCall :: "call \<Rightarrow> bool" where
  "listingCall (ListInstancesCall compartment opts) = True"
| "listingCall (ListVnicAttachmentsCall compartment opts) = True"
| "listingCall (ListLoadBalancersCall compartment opts) = True"
| "listingCall cl = False"

text \<open>The vnics that \<open>GetAttachedVnicsForInstance\<close> is to return, in the words of its comment.\<close>

definition availableAttached :: "(string \<Rightarrow> Vnic) \<Rightarrow> VnicAttachment list \<Rightarrow> Vnic list" where
  "availableAttached vnicOf atts =
     filter (\<lambda>v. Vnic_State v = ResourceAvailable)
       (map (\<lambda>a. vnicOf (Attachment_VnicID a))
          (filter (\<lambda>a. Attachment_State a = ResourceAttached) atts))"

text \<open>The calls that the vnic scan makes, and the display-name stage does not.\<close>

fun vnicScanCall :: "call \<Rightarrow> bool" where
  "vnicScanCall (ListVnicAttachmentsCall compartment opts) = True"
| "vnicScanCall (GetVnicCall ocid) = True"
| "vnicScanCall (GetInstanceCall ocid) = True"
| "vnicScanCall cl = False"

text \<open>The subnets fetched, in the order of the calls.\<close>

fun subnetFetches :: "call list \<Rightarrow> string list" where
  "subnetFetches [] = []"
| "subnetFetches (GetSubnetCall ocid # cls) = ocid # subnetFetches cls"
| "subnetFetches (cl # cls) = subnetFetches cls"

text \<open>
  \<open>polls c ocid w rs\<close>: from the state \<open>w\<close> of the backend, the successive polls of
  the work request \<open>ocid\<close> are answered with \<open>rs\<close>, one after the other.
\<close>

fun polls :: "'w client \<Rightarrow> string \<Rightarrow> 'w \<Rightarrow> (error + WorkRequest) list \<Rightarrow> bool" where
  "polls c ocid w [] = True"
| "polls c ocid w (r # rs) =
     (case sdkGetWorkRequest (Client c) ocid w of (r', w') \<Rightarrow> r' = r \<and> polls c ocid w' rs)"


subsection \<open>A small cloud\<close>

text \<open>
  A backend to run the client on. Its state is the number of work-request polls it has
  answered: a work request is in progress for the first polls and finished after them.
\<close>

definition web1 :: Instance where
  "web1 = \<lparr>Instance_ID = ''i-web1'', Instance_DisplayName = ''web-1'', Instance_State = ''RUNNING''\<rparr>"

definition web1old :: Instance where
  "web1old =
     \<lparr>Instance_ID = ''i-web1-old'', Instance_DisplayName = ''web-1'', Instance_State = ''TERMINATED''\<rparr>"

definition db1a :: Instance where
  "db1a = \<lparr>Instance_ID = ''i-db1-a'', Instance_DisplayName = ''db-1'', Instance_State = ''RUNNING''\<rparr>"

definition db1b :: Instance where
  "db1b = \<lparr>Instance_ID = ''i-db1-b'', Instance_DisplayName = ''db-1'', Instance_State = ''RUNNING''\<rparr>"

definition app1 :: Instance where
  "app1 = \<lparr>Instance_ID = ''i-app1'', Instance_DisplayName = ''application'', Instance_State = ''RUNNING''\<rparr>"

definition instancePage :: "ListInstancesOptions \<Rightarrow> ListInstances" where
  "instancePage opts =
     (if DisplayName opts = ''web-1'' \<and> Page opts = [] then \<lparr>NextPage = ''2'', Instances = [web1old]\<rparr>
      else if DisplayName opts = ''web-1'' \<and> Page opts = ''2'' then \<lparr>NextPage = [], Instances = [web1]\<rparr>
      else if DisplayName opts = ''db-1'' then \<lparr>NextPage = [], Instances = [db1a, db1b]\<rparr>
      else \<lparr>NextPage = [], Instances = []\<rparr>)"

definition instanceAt :: "string \<Rightarrow> error + Instance" where
  "instanceAt ocid =
     (if ocid = ''i-web1'' then Inr web1
      else if ocid = ''i-web1-old'' then Inr web1old
      else if ocid = ''i-app1'' then Inr app1
      else Inl (SdkError ''no such instance''))"

definition attApp :: VnicAttachment where
  "attApp = \<lparr>Attachment_ID = ''a-app'', Attachment_InstanceID = ''i-app1'',
             Attachment_VnicID = ''v-app'', Attachment_State = ''ATTACHED''\<rparr>"

definition attOld :: VnicAttachment where
  "attOld = \<lparr>Attachment_ID = ''a-old'', Attachment_InstanceID = ''i-web1-old'',
             Attachment_VnicID = ''v-old'', Attachment_State = ''DETACHED''\<rparr>"

definition attWeb :: VnicAttachment where
  "attWeb = \<lparr>Attachment_ID = ''a-web'', Attachment_InstanceID = ''i-web1'',
             Attachment_VnicID = ''v-web'', Attachment_State = ''ATTACHED''\<rparr>"

definition attSpare :: VnicAttachment where
  "attSpare = \<lparr>Attachment_ID = ''a-spare'', Attachment_InstanceID = ''i-app1'',
               Attachment_VnicID = ''v-spare'', Attachment_State = ''ATTACHED''\<rparr>"

definition attachmentPage :: "ListVnicAttachmentsOptions option \<Rightarrow> ListVnicAttachments" where
  "attachmentPage opts =
     (case opts of
        None \<Rightarrow> \<lparr>NextPage = ''2'', Attachments = [attApp, attOld]\<rparr>
      | Some o1 \<Rightarrow>
          if Page o1 = [] then \<lparr>NextPage = ''2'', Attachments = [attApp, attOld]\<rparr>
          else if Page o1 = ''2'' then \<lparr>NextPage = [], Attachments = [attWeb, attSpare]\<rparr>
          else \<lparr>NextPage = [], Attachments = []\<rparr>)"

definition vnicApp :: Vnic where
  "vnicApp = \<lparr>Vnic_ID = ''v-app'', Vnic_HostnameLabel = ''app-1'', Vnic_PrivateIPAddress = ''10.0.0.5'',
              Vnic_PublicIPAddress = [], Vnic_SubnetID = ''subnet-a'', Vnic_State = ''AVAILABLE''\<rparr>"

definition vnicWeb :: Vnic where
  "vnicWeb = \<lparr>Vnic_ID = ''v-web'', Vnic_HostnameLabel = ''web-1'', Vnic_PrivateIPAddress = ''10.0.0.6'',
              Vnic_PublicIPAddress = ''129.146.0.9'', Vnic_SubnetID = ''subnet-a'',
              Vnic_State = ''AVAILABLE''\<rparr>"

definition vnicSpare :: Vnic where
  "vnicSpare = \<lparr>Vnic_ID = ''v-spare'', Vnic_HostnameLabel = [], Vnic_PrivateIPAddress = ''10.0.1.7'',
                Vnic_PublicIPAddress = [], Vnic_SubnetID = ''subnet-b'', Vnic_State = ''TERMINATING''\<rparr>"

definition vnicAt :: "string \<Rightarrow> error + Vnic" where
  "vnicAt ocid =
     (if ocid = ''v-app'' then Inr vnicApp
      else if ocid = ''v-web'' then Inr vnicWeb
      else if ocid = ''v-spare'' then Inr vnicSpare
      else Inl (SdkError ''no such vnic''))"

definition subnetA :: Subnet where
  "subnetA = \<lparr>Subnet_ID = ''subnet-a'', Subnet_SecurityListIDs = [''sl-1'']\<rparr>"

definition subnetB :: Subnet where
  "subnetB = \<lparr>Subnet_ID = ''subnet-b'', Subnet_SecurityListIDs = [''sl-2'']\<rparr>"

definition subnetAt :: "string \<Rightarrow> error + Subnet" where
  "subnetAt ocid =
     (if ocid = ''subnet-a'' then Inr subnetA
      else if ocid = ''subnet-b'' then Inr subnetB
      else Inl (SdkError ''no such subnet''))"

definition lbOther :: LoadBalancer where
  "lbOther = \<lparr>LoadBalancer_ID = ''lb-0'', LoadBalancer_DisplayName = ''internal''\<rparr>"

definition lb1 :: LoadBalancer where
  "lb1 = \<lparr>LoadBalancer_ID = ''lb-1'', LoadBalancer_DisplayName = ''ingress''\<rparr>"

definition lb2 :: LoadBalancer where
  "lb2 = \<lparr>LoadBalancer_ID = ''lb-2'', LoadBalancer_DisplayName = ''ingress''\<rparr>"

definition lb3 :: LoadBalancer where
  "lb3 = \<lparr>LoadBalancer_ID = ''lb-3'', LoadBalancer_DisplayName = ''legacy''\<rparr>"

definition loadBalancerPage :: "ListOptions \<Rightarrow> ListLoadBalancers" where
  "loadBalancerPage opts =
     (if Page opts = [] then \<lparr>NextPage = ''2'', LoadBalancers = [lbOther]\<rparr>
      else if Page opts = ''2'' then \<lparr>NextPage = ''3'', LoadBalancers = [lb1, lb2]\<rparr>
      else if Page opts = ''3'' then \<lparr>NextPage = [], LoadBalancers = [lb3]\<rparr>
      else \<lparr>NextPage = [], LoadBalancers = []\<rparr>)"

definition inProgress :: "string \<Rightarrow> WorkRequest" where
  "inProgress ocid = \<lparr>WorkRequest_ID = ocid, WorkRequest_LoadBalancerID = [],
                      WorkRequest_State = ''IN_PROGRESS'', WorkRequest_Message = []\<rparr>"

definition succeeded :: "string \<Rightarrow> WorkRequest" where
  "succeeded ocid = \<lparr>WorkRequest_ID = ocid, WorkRequest_LoadBalancerID = ''lb-1'',
                     WorkRequest_State = ''SUCCEEDED'', WorkRequest_Message = []\<rparr>"

definition failed :: "string \<Rightarrow> WorkRequest" where
  "failed ocid = \<lparr>WorkRequest_ID = ocid, WorkRequest_LoadBalancerID = [],
                  WorkRequest_State = ''FAILED'', WorkRequest_Message = ''out of capacity''\<rparr>"

definition workRequestAt :: "string \<Rightarrow> nat \<Rightarrow> error + WorkRequest" where
  "workRequestAt ocid polled =
     (if ocid = ''wr-quick'' then (if polled < 2 then Inr (inProgress ocid) else Inr (succeeded ocid))
      else if ocid = ''wr-slow'' then (if polled < 15 then Inr (inProgress ocid) else Inr (succeeded ocid))
      else if ocid = ''wr-bad'' then (if polled < 1 then Inr (inProgress ocid) else Inr (failed ocid))
      else if ocid = ''wr-lost'' then (if polled < 1 then Inr (inProgress ocid) else Inl (SdkError ''connection reset''))
      else Inl (SdkError ''no such work request''))"

definition backendSet1 :: BackendSet where
  "backendSet1 = \<lparr>BackendSet_Name = ''TCP-443'', BackendSet_Policy = ''ROUND_ROBIN'',
                  BackendSet_Backends = [(''10.0.0.5'', 30443)], BackendSet_HealthChecker = None,
                  BackendSet_SSLConfig = None, BackendSet_SessionPersistenceConfig = None\<rparr>"

definition listener1 :: Listener where
  "listener1 = \<lparr>Listener_Name = ''TCP-443'', Listener_DefaultBackendSetName = ''TCP-443'',
                Listener_Protocol = ''TCP'', Listener_Port = 443, Listener_SSLConfig = None\<rparr>"

definition cloudSdk :: "nat baremetal_Client" where
  "cloudSdk =
     \<lparr>sdkListInstances = (\<lambda>compartment opts w. (Inr (instancePage opts), w)),
      sdkListVnicAttachments = (\<lambda>compartment opts w. (Inr (attachmentPage opts), w)),
      sdkListLoadBalancers = (\<lambda>compartment opts w. (Inr (loadBalancerPage opts), w)),
      sdkGetVnic = (\<lambda>ocid w. (vnicAt ocid, w)),
      sdkGetInstance = (\<lambda>ocid w. (instanceAt ocid, w)),
      sdkGetSubnet = (\<lambda>ocid w. (subnetAt ocid, w)),
      sdkGetWorkRequest = (\<lambda>ocid w. (workRequestAt ocid w, Suc w)),
      sdkCreateLoadBalancer = (\<lambda>compartment shape subnets name w. (Inr ''wr-quick'', w)),
      sdkGetLoadBalancer = (\<lambda>ocid w. (if ocid = ''lb-1'' then Inr lb1 else Inl (SdkError ''no such load balancer''), w)),
      sdkCreateBackendSet = (\<lambda>lbID bs w. (Inr ''wr-quick'', w)),
      sdkGetBackendSet = (\<lambda>lbID name w. (Inr backendSet1, w)),
      sdkCreateListener = (\<lambda>lbID l w. (Inr ''wr-quick'', w))\<rparr>"

definition cloud :: "nat client" where
  "cloud = \<lparr>Client = cloudSdk, compartmentOCID = ''compartment-1''\<rparr>"

text \<open>The same cloud with all the attachments on one page.\<close>

definition flat :: "nat client" where
  "flat = \<lparr>Client = cloudSdk\<lparr>sdkListVnicAttachments :=
              (\<lambda>compartment opts w.
                 (Inr \<lparr>NextPage = [], Attachments = [attApp, attOld, attWeb, attSpare, attApp]\<rparr>, w))\<rparr>,
           compartmentOCID = ''compartment-1''\<rparr>"

text \<open>A backend whose listing of instances returns the same cursor for ever.\<close>

definition stuck :: "nat client" where
  "stuck = \<lparr>Client = cloudSdk\<lparr>sdkListInstances :=
              (\<lambda>compartment opts w. (Inr \<lparr>NextPage = ''again'', Instances = []\<rparr>, w))\<rparr>,
            compartmentOCID = ''compartment-1''\<rparr>"

text \<open>The vnics and instances of the cloud as total tables, for the ids it knows.\<close>

definition vnicTable :: "string \<Rightarrow> Vnic" where
  "vnicTable ocid = (case vnicAt ocid of Inr v \<Rightarrow> v | Inl err \<Rightarrow> vnicSpare)"

definition instanceTable :: "string \<Rightarrow> Instance" where
  "instanceTable ocid = (case instanceAt ocid of Inr i \<Rightarrow> i | Inl err \<Rightarrow> web1old)"

definition subnetTable :: "string \<Rightarrow> Subnet" where
  "subnetTable ocid = (case subnetAt ocid of Inr sn \<Rightarrow> sn | Inl err \<Rightarrow> subnetB)"

text \<open>
  A stand-in for \<^verbatim>\<open>net.ParseIP\<close> on the addresses of the small cloud: a parsed address
  is kept as its text, which \<^verbatim>\<open>IP.String\<close> gives back.
\<close>

definition cloudParseIP :: "string \<Rightarrow> string option" where
  "cloudParseIP a =
     (if a = ''10.0.0.5'' \<or> a = ''10.0.0.6'' \<or> a = ''10.0.1.7'' \<or> a = ''129.146.0.9'' then Some a
      else None)"

definition cloudIPString :: "string \<Rightarrow> string" where
  "cloudIPString a = a"

definition start :: "nat st" where
  "start = \<lparr>calls = [], world = 0\<rparr>"

lemmas fixture_defs =
  cloud_def cloudSdk_def flat_def stuck_def start_def instancePage_def instanceAt_def attachmentPage_def
  vnicAt_def subnetAt_def vnicTable_def instanceTable_def subnetTable_def cloudParseIP_def
  cloudIPString_def loadBalancerPage_def workRequestAt_def
  web1_def web1old_def db1a_def db1b_def app1_def attApp_def attOld_def attWeb_def attSpare_def
  vnicApp_def vnicWeb_def vnicSpare_def subnetA_def subnetB_def lbOther_def lb1_def lb2_def lb3_def
  inProgress_def succeeded_def failed_def backendSet1_def listener1_def

lemmas sdk_defs =
  ListInstances_def ListVnicAttachments_def ListLoadBalancers_def GetVnic_def GetInstance_def
  GetSubnet_def GetWorkRequest_def CreateLoadBalancer_def GetLoadBalancer_def CreateBackendSet_def
  GetBackendSet_def CreateListener_def invoke_def

lemmas state_defs =
  ResourceRunning_def ResourceAttached_def ResourceAvailable_def WorkRequestSucceeded_def
  WorkRequestFailed_def

section \<open>The display-name stage of GetInstanceByNodeName\<close>

lemma appendRunning_filter:
  "appendRunning running xs = running @ filter (\<lambda>i. Instance_State i = ResourceRunning) xs"
  by (induction xs arbitrary: running) simp_all

lemma listRunningInstances_serves:
  assumes "serves (sdkListInstances (Client c) (compartmentOCID c)) opts (world s) pages"
    and "pages \<noteq> []" and "NextPage (last pages) = []"
  shows "\<exists>w'. listRunningInstances c opts running s =
           Some (Inr (running @ filter (\<lambda>i. Instance_State i = ResourceRunning) (concat (map Instances pages))),
                 \<lparr>calls = calls s @ map (ListInstancesCall (compartmentOCID c)) (fedOptions opts pages), world = w'\<rparr>)"
  using assms
proof (induction pages arbitrary: opts s running)
  case Nil
  then show ?case by simp
next
  case (Cons p ps)
  obtain r w1 where call: "sdkListInstances (Client c) (compartmentOCID c) opts (world s) = (r, w1)"
    by (cases "sdkListInstances (Client c) (compartmentOCID c) opts (world s)")
  with Cons.prems(1) have r: "r = Inr p" by simp
  let ?s1 = "\<lparr>calls = calls s @ [ListInstancesCall (compartmentOCID c) opts], world = w1\<rparr>"
  let ?run = "running @ filter (\<lambda>i. Instance_State i = ResourceRunning) (Instances p)"
  have li: "ListInstances c (compartmentOCID c) opts s = (Inr p, ?s1)"
    by (simp add: ListInstances_def invoke_def call r)
  show ?case
  proof (cases "ps = []")
    case True
    with Cons.prems(3) have "NextPage p = []" by simp
    then show ?thesis using True
      by (subst listRunningInstances.simps) (simp add: li SetNextPageOption_def appendRunning_filter)
  next
    case False
    with Cons.prems(1) call have np: "NextPage p \<noteq> []"
      and sv: "serves (sdkListInstances (Client c) (compartmentOCID c)) (opts\<lparr>Page := NextPage p\<rparr>) (world ?s1) ps"
      by simp_all
    from False Cons.prems(3) have lst: "NextPage (last ps) = []" by simp
    from Cons.IH[OF sv False lst, of ?run]
    obtain w' where "listRunningInstances c (opts\<lparr>Page := NextPage p\<rparr>) ?run ?s1 =
           Some (Inr (?run @ filter (\<lambda>i. Instance_State i = ResourceRunning) (concat (map Instances ps))),
                 \<lparr>calls = calls ?s1 @ map (ListInstancesCall (compartmentOCID c)) (fedOptions (opts\<lparr>Page := NextPage p\<rparr>) ps), world = w'\<rparr>)"
      by blast
    then show ?thesis using np
      by (subst listRunningInstances.simps) (simp add: li SetNextPageOption_def appendRunning_filter)
  qed
qed

lemma no_scan_in_listing:
  "filter vnicScanCall (map (ListInstancesCall compartment) os) = []"
  by (induction os) simp_all

text \<open>
  C2. When the listing by display name, followed from cursor to cursor until a page has
  none, yields exactly one Running instance, \<open>GetInstanceByNodeName\<close> returns that
  instance, and the only calls it makes are the calls of the listing: the vnic scan is
  not invoked (no call to list vnic attachments, to get a vnic or to get an instance).
  A blank node name is rejected before any listing, so the name is not blank.
\<close>

theorem GetInstanceByNodeName_one_running:
  assumes "nodeName \<noteq> []"
    and "serves (sdkListInstances (Client c) (compartmentOCID c))
           \<lparr>Page = [], DisplayName = nodeName\<rparr> (world s) pages"
    and "pages \<noteq> []" and "NextPage (last pages) = []"
    and "filter (\<lambda>i. Instance_State i = ResourceRunning) (concat (map Instances pages)) = [i]"
  shows "\<exists>s'. GetInstanceByNodeName c nodeName s = Some (Inr i, s') \<and>
           calls s' = calls s @ map (ListInstancesCall (compartmentOCID c))
                                  (fedOptions \<lparr>Page = [], DisplayName = nodeName\<rparr> pages) \<and>
           filter vnicScanCall (calls s') = filter vnicScanCall (calls s)"
proof -
  from listRunningInstances_serves[OF assms(2-4), of "[]"] assms(5)
  obtain w' where "listRunningInstances c \<lparr>Page = [], DisplayName = nodeName\<rparr> [] s =
      Some (Inr [i], \<lparr>calls = calls s @ map (ListInstancesCall (compartmentOCID c))
              (fedOptions \<lparr>Page = [], DisplayName = nodeName\<rparr> pages), world = w'\<rparr>)"
    by auto
  then show ?thesis using assms(1)
    by (simp add: GetInstanceByNodeName_def no_scan_in_listing)
qed

theorem GetInstanceByNodeName_one_running_witness:
  "''web-1'' \<noteq> [] \<and>
   serves (sdkListInstances (Client cloud) (compartmentOCID cloud))
     \<lparr>Page = [], DisplayName = ''web-1''\<rparr> (world start)
     [\<lparr>NextPage = ''2'', Instances = [web1old]\<rparr>, \<lparr>NextPage = [], Instances = [web1]\<rparr>] \<and>
   filter (\<lambda>i. Instance_State i = ResourceRunning) [web1old, web1] = [web1] \<and>
   (\<exists>s'. GetInstanceByNodeName cloud ''web-1'' start = Some (Inr web1, s') \<and>
      calls s' = [ListInstancesCall ''compartment-1'' \<lparr>Page = [], DisplayName = ''web-1''\<rparr>,
                  ListInstancesCall ''compartment-1'' \<lparr>Page = ''2'', DisplayName = ''web-1''\<rparr>] \<and>
      filter vnicScanCall (calls s') = [])"
proof -
  have h: "serves (sdkListInstances (Client cloud) (compartmentOCID cloud))
     \<lparr>Page = [], DisplayName = ''web-1''\<rparr> (world start)
     [\<lparr>NextPage = ''2'', Instances = [web1old]\<rparr>, \<lparr>NextPage = [], Instances = [web1]\<rparr>]"
    by (simp add: fixture_defs)
  have f: "filter (\<lambda>i. Instance_State i = ResourceRunning) [web1old, web1] = [web1]"
    by (simp add: fixture_defs state_defs)
  from GetInstanceByNodeName_one_running[OF _ h, of web1] f h
  show ?thesis by (simp add: cloud_def start_def)
qed

text \<open>
  C3. When the display-name stage yields two or more Running instances,
  \<open>GetInstanceByNodeName\<close> fails with the error that reports how many it found instead
  of one (the Ambiguous error), and the vnic scan is not attempted: the only calls made
  are those of the listing by display name.
\<close>

theorem GetInstanceByNodeName_many_running:
  assumes "nodeName \<noteq> []"
    and "serves (sdkListInstances (Client c) (compartmentOCID c))
           \<lparr>Page = [], DisplayName = nodeName\<rparr> (world s) pages"
    and "pages \<noteq> []" and "NextPage (last pages) = []"
    and "running = filter (\<lambda>i. Instance_State i = ResourceRunning) (concat (map Instances pages))"
    and "2 \<le> length running"
  shows "\<exists>s'. GetInstanceByNodeName c nodeName s =
                 Some (Inl (ExpectedOneByDisplayName nodeName (length running)), s') \<and>
           calls s' = calls s @ map (ListInstancesCall (compartmentOCID c))
                                  (fedOptions \<lparr>Page = [], DisplayName = nodeName\<rparr> pages) \<and>
           filter vnicScanCall (calls s') = filter vnicScanCall (calls s)"
proof -
  from listRunningInstances_serves[OF assms(2-4), of "[]"] assms(5)
  obtain w' where "listRunningInstances c \<lparr>Page = [], DisplayName = nodeName\<rparr> [] s =
      Some (Inr running, \<lparr>calls = calls s @ map (ListInstancesCall (compartmentOCID c))
              (fedOptions \<lparr>Page = [], DisplayName = nodeName\<rparr> pages), world = w'\<rparr>)"
    by auto
  moreover from assms(6) have "running \<noteq> []" "1 < length running" by auto
  ultimately show ?thesis using assms(1)
    by (simp add: GetInstanceByNodeName_def no_scan_in_listing Let_def)
qed

theorem GetInstanceByNodeName_many_running_witness:
  "''db-1'' \<noteq> [] \<and>
   serves (sdkListInstances (Client cloud) (compartmentOCID cloud))
     \<lparr>Page = [], DisplayName = ''db-1''\<rparr> (world start)
     [\<lparr>NextPage = [], Instances = [db1a, db1b]\<rparr>] \<and>
   filter (\<lambda>i. Instance_State i = ResourceRunning) [db1a, db1b] = [db1a, db1b] \<and>
   (\<exists>s'. GetInstanceByNodeName cloud ''db-1'' start = Some (Inl (ExpectedOneByDisplayName ''db-1'' 2), s') \<and>
      calls s' = [ListInstancesCall ''compartment-1'' \<lparr>Page = [], DisplayName = ''db-1''\<rparr>] \<and>
      filter vnicScanCall (calls s') = [])"
proof -
  have h: "serves (sdkListInstances (Client cloud) (compartmentOCID cloud))
     \<lparr>Page = [], DisplayName = ''db-1''\<rparr> (world start)
     [\<lparr>NextPage = [], Instances = [db1a, db1b]\<rparr>]"
    by (simp add: fixture_defs)
  have f: "filter (\<lambda>i. Instance_State i = ResourceRunning) [db1a, db1b] = [db1a, db1b]"
    by (simp add: fixture_defs state_defs)
  from GetInstanceByNodeName_many_running[OF _ h, of "[db1a, db1b]"] f h
  show ?thesis by (simp add: cloud_def start_def numeral_2_eq_2)
qed

section \<open>GetLoadBalancerByName\<close>

lemma serves_take: "serves list opts w pages \<Longrightarrow> serves list opts w (take n pages)"
proof (induction pages arbitrary: opts w n)
  case Nil
  then show ?case by simp
next
  case (Cons p ps)
  show ?case
  proof (cases n)
    case 0
    then show ?thesis by simp
  next
    case (Suc m)
    with Cons show ?thesis
      by (cases "take m ps = []") (auto split: prod.splits)
  qed
qed

lemma fedOptions_take: "take n (fedOptions opts pages) = fedOptions opts (take n pages)"
proof (induction pages arbitrary: opts n)
  case Nil
  then show ?case by simp
next
  case (Cons p ps)
  then show ?case by (cases n) simp_all
qed

lemma length_fedOptions: "length (fedOptions opts pages) = length pages"
  by (induction pages arbitrary: opts) simp_all

lemma find_app:
  "find P (xs @ ys) = (case find P xs of None \<Rightarrow> find P ys | Some x \<Rightarrow> Some x)"
  by (induction xs) simp_all

lemma find_concat_none:
  "\<forall>q\<in>set qs. find P (f q) = None \<Longrightarrow> find P (concat (map f qs) @ ys) = find P ys"
  by (induction qs) (simp_all add: find_app)

lemma searchLoadBalancers_found:
  assumes "serves (sdkListLoadBalancers (Client c) (compartmentOCID c)) opts (world s) (qs @ [p])"
    and "\<forall>q\<in>set qs. find (\<lambda>lb. LoadBalancer_DisplayName lb = name) (LoadBalancers q) = None"
    and "find (\<lambda>lb. LoadBalancer_DisplayName lb = name) (LoadBalancers p) = Some lb"
  shows "\<exists>w'. searchLoadBalancers c name opts s =
           Some (Inr lb, \<lparr>calls = calls s @ map (ListLoadBalancersCall (compartmentOCID c))
                                              (fedOptions opts (qs @ [p])), world = w'\<rparr>)"
  using assms(1,2)
proof (induction qs arbitrary: opts s)
  case Nil
  obtain r w1 where call: "sdkListLoadBalancers (Client c) (compartmentOCID c) opts (world s) = (r, w1)"
    by (cases "sdkListLoadBalancers (Client c) (compartmentOCID c) opts (world s)")
  with Nil.prems(1) have "r = Inr p" by simp
  with call assms(3) show ?case
    by (subst searchLoadBalancers.simps) (simp add: ListLoadBalancers_def invoke_def)
next
  case (Cons q qs)
  obtain r w1 where call: "sdkListLoadBalancers (Client c) (compartmentOCID c) opts (world s) = (r, w1)"
    by (cases "sdkListLoadBalancers (Client c) (compartmentOCID c) opts (world s)")
  let ?s1 = "\<lparr>calls = calls s @ [ListLoadBalancersCall (compartmentOCID c) opts], world = w1\<rparr>"
  from Cons.prems(1) call have r: "r = Inr q" and np: "NextPage q \<noteq> []"
    and sv: "serves (sdkListLoadBalancers (Client c) (compartmentOCID c))
               (opts\<lparr>Page := NextPage q\<rparr>) (world ?s1) (qs @ [p])"
    by simp_all
  from Cons.prems(2) have none: "find (\<lambda>lb. LoadBalancer_DisplayName lb = name) (LoadBalancers q) = None"
    and rest: "\<forall>q\<in>set qs. find (\<lambda>lb. LoadBalancer_DisplayName lb = name) (LoadBalancers q) = None"
    by simp_all
  from Cons.IH[OF sv rest]
  obtain w' where "searchLoadBalancers c name (opts\<lparr>Page := NextPage q\<rparr>) ?s1 =
           Some (Inr lb, \<lparr>calls = calls ?s1 @ map (ListLoadBalancersCall (compartmentOCID c))
                                              (fedOptions (opts\<lparr>Page := NextPage q\<rparr>) (qs @ [p])), world = w'\<rparr>)"
    by blast
  then show ?case using call r np none
    by (subst searchLoadBalancers.simps)
      (simp add: ListLoadBalancers_def invoke_def SetNextPageOption_def)
qed

lemma searchLoadBalancers_missing:
  assumes "serves (sdkListLoadBalancers (Client c) (compartmentOCID c)) opts (world s) pages"
    and "pages \<noteq> []" and "NextPage (last pages) = []"
    and "\<forall>q\<in>set pages. find (\<lambda>lb. LoadBalancer_DisplayName lb = name) (LoadBalancers q) = None"
  shows "\<exists>w'. searchLoadBalancers c name opts s =
           Some (Inl (SearchError (CouldNotFindLoadBalancer name) True),
                 \<lparr>calls = calls s @ map (ListLoadBalancersCall (compartmentOCID c))
                                       (fedOptions opts pages), world = w'\<rparr>)"
  using assms
proof (induction pages arbitrary: opts s)
  case Nil
  then show ?case by simp
next
  case (Cons q qs)
  obtain r w1 where call: "sdkListLoadBalancers (Client c) (compartmentOCID c) opts (world s) = (r, w1)"
    by (cases "sdkListLoadBalancers (Client c) (compartmentOCID c) opts (world s)")
  let ?s1 = "\<lparr>calls = calls s @ [ListLoadBalancersCall (compartmentOCID c) opts], world = w1\<rparr>"
  from Cons.prems(1) call have r: "r = Inr q" by simp
  from Cons.prems(4) have none: "find (\<lambda>lb. LoadBalancer_DisplayName lb = name) (LoadBalancers q) = None"
    and rest: "\<forall>q\<in>set qs. find (\<lambda>lb. LoadBalancer_DisplayName lb = name) (LoadBalancers q) = None"
    by simp_all
  show ?case
  proof (cases "qs = []")
    case True
    with Cons.prems(3) have "NextPage q = []" by simp
    with True call r none show ?thesis
      by (subst searchLoadBalancers.simps)
        (simp add: ListLoadBalancers_def invoke_def SetNextPageOption_def)
  next
    case False
    with Cons.prems(1) call have np: "NextPage q \<noteq> []"
      and sv: "serves (sdkListLoadBalancers (Client c) (compartmentOCID c))
               (opts\<lparr>Page := NextPage q\<rparr>) (world ?s1) qs"
      by simp_all
    from False Cons.prems(3) have lst: "NextPage (last qs) = []" by simp
    from Cons.IH[OF sv False lst rest]
    obtain w' where "searchLoadBalancers c name (opts\<lparr>Page := NextPage q\<rparr>) ?s1 =
           Some (Inl (SearchError (CouldNotFindLoadBalancer name) True),
                 \<lparr>calls = calls ?s1 @ map (ListLoadBalancersCall (compartmentOCID c))
                                       (fedOptions (opts\<lparr>Page := NextPage q\<rparr>) qs), world = w'\<rparr>)"
      by blast
    then show ?thesis using call r np none
      by (subst searchLoadBalancers.simps)
        (simp add: ListLoadBalancers_def invoke_def SetNextPageOption_def)
  qed
qed

text \<open>
  C10. Let the listing of load balancers be served as the pages P1..Pn, the last one
  without cursor. \<open>GetLoadBalancerByName\<close> returns the first load balancer, in the order
  of the pages and of their items, whose display name is the given name, whether or not
  a later one has the same name; it calls the listing for the pages up to the one that
  holds it and for no page after it. When no page holds such a load balancer, it calls
  the listing n times and fails with a \<open>SearchError\<close> whose \<open>NotFound\<close> flag is set.
\<close>

theorem GetLoadBalancerByName_first_match:
  assumes "serves (sdkListLoadBalancers (Client c) (compartmentOCID c)) \<lparr>Page = []\<rparr> (world s) pages"
    and "pages \<noteq> []" and "NextPage (last pages) = []"
  shows "\<exists>s'. GetLoadBalancerByName c name s =
           Some (case find (\<lambda>lb. LoadBalancer_DisplayName lb = name) (concat (map LoadBalancers pages)) of
                   Some lb \<Rightarrow> Inr lb
                 | None \<Rightarrow> Inl (SearchError (CouldNotFindLoadBalancer name) True), s') \<and>
           calls s' = calls s @ map (ListLoadBalancersCall (compartmentOCID c))
             (take (Suc (length (takeWhile
                      (\<lambda>p. find (\<lambda>lb. LoadBalancer_DisplayName lb = name) (LoadBalancers p) = None) pages)))
                (fedOptions \<lparr>Page = []\<rparr> pages))"
proof -
  let ?P = "\<lambda>lb::LoadBalancer. LoadBalancer_DisplayName lb = name"
  let ?none = "\<lambda>p. find ?P (LoadBalancers p) = None"
  let ?qs = "takeWhile ?none pages"
  show ?thesis
  proof (cases "length ?qs < length pages")
    case False
    with length_takeWhile_le[of ?none pages] have "length ?qs = length pages" by simp
    with takeWhile_eq_take[of ?none pages] have "?qs = pages" by simp
    then have all: "\<forall>q\<in>set pages. ?none q"
      by (simp only: takeWhile_eq_all_conv)
    then have "find ?P (concat (map LoadBalancers pages)) = None"
      using find_concat_none[of pages ?P LoadBalancers "[]"] by simp
    moreover from False have "take (Suc (length ?qs)) (fedOptions \<lparr>Page = []\<rparr> pages) = fedOptions \<lparr>Page = []\<rparr> pages"
      by (simp add: length_fedOptions)
    ultimately show ?thesis
      using searchLoadBalancers_missing[OF assms all]
      by (auto simp: GetLoadBalancerByName_def)
  next
    case True
    let ?p = "pages ! length ?qs"
    from True have notnone: "\<not> ?none ?p" by (rule nth_length_takeWhile)
    then obtain lb where lb: "find ?P (LoadBalancers ?p) = Some lb" by auto
    from True have tk: "take (Suc (length ?qs)) pages = ?qs @ [?p]"
      by (simp add: take_Suc_conv_app_nth takeWhile_eq_take[symmetric])
    have qs: "\<forall>q\<in>set ?qs. ?none q" by (auto dest: set_takeWhileD)
    from serves_take[OF assms(1), of "Suc (length ?qs)"] tk
    have sv: "serves (sdkListLoadBalancers (Client c) (compartmentOCID c)) \<lparr>Page = []\<rparr> (world s) (?qs @ [?p])"
      by simp
    have "pages = (?qs @ [?p]) @ drop (Suc (length ?qs)) pages"
      using tk append_take_drop_id[of "Suc (length ?qs)" pages] by simp
    then have "concat (map LoadBalancers pages) =
        concat (map LoadBalancers ((?qs @ [?p]) @ drop (Suc (length ?qs)) pages))"
      by (rule arg_cong)
    then have "concat (map LoadBalancers pages) =
        concat (map LoadBalancers ?qs) @ (LoadBalancers ?p @ concat (map LoadBalancers (drop (Suc (length ?qs)) pages)))"
      by simp
    then have "find ?P (concat (map LoadBalancers pages)) = Some lb"
      using find_concat_none[OF qs] lb by (simp add: find_app)
    moreover have "take (Suc (length ?qs)) (fedOptions \<lparr>Page = []\<rparr> pages) = fedOptions \<lparr>Page = []\<rparr> (?qs @ [?p])"
      by (simp only: fedOptions_take tk)
    ultimately show ?thesis
      using searchLoadBalancers_found[OF sv qs lb]
      by (auto simp: GetLoadBalancerByName_def)
  qed
qed

theorem GetLoadBalancerByName_first_match_witness:
  "serves (sdkListLoadBalancers (Client cloud) (compartmentOCID cloud)) \<lparr>Page = []\<rparr> (world start)
     [\<lparr>NextPage = ''2'', LoadBalancers = [lbOther]\<rparr>, \<lparr>NextPage = ''3'', LoadBalancers = [lb1, lb2]\<rparr>,
      \<lparr>NextPage = [], LoadBalancers = [lb3]\<rparr>] \<and>
   LoadBalancer_DisplayName lb1 = ''ingress'' \<and> LoadBalancer_DisplayName lb2 = ''ingress'' \<and>
   (\<exists>s'. GetLoadBalancerByName cloud ''ingress'' start = Some (Inr lb1, s') \<and>
      calls s' = [ListLoadBalancersCall ''compartment-1'' \<lparr>Page = []\<rparr>,
                  ListLoadBalancersCall ''compartment-1'' \<lparr>Page = ''2''\<rparr>]) \<and>
   (\<exists>s'. GetLoadBalancerByName cloud ''missing'' start =
            Some (Inl (SearchError (CouldNotFindLoadBalancer ''missing'') True), s') \<and>
      calls s' = [ListLoadBalancersCall ''compartment-1'' \<lparr>Page = []\<rparr>,
                  ListLoadBalancersCall ''compartment-1'' \<lparr>Page = ''2''\<rparr>,
                  ListLoadBalancersCall ''compartment-1'' \<lparr>Page = ''3''\<rparr>])"
proof -
  have h: "serves (sdkListLoadBalancers (Client cloud) (compartmentOCID cloud)) \<lparr>Page = []\<rparr> (world start)
     [\<lparr>NextPage = ''2'', LoadBalancers = [lbOther]\<rparr>, \<lparr>NextPage = ''3'', LoadBalancers = [lb1, lb2]\<rparr>,
      \<lparr>NextPage = [], LoadBalancers = [lb3]\<rparr>]"
    by (simp add: fixture_defs)
  have n: "LoadBalancer_DisplayName lb1 = ''ingress''" "LoadBalancer_DisplayName lb2 = ''ingress''"
    by (simp_all add: lb1_def lb2_def)
  have r1: "\<exists>s'. GetLoadBalancerByName cloud ''ingress'' start = Some (Inr lb1, s') \<and>
      calls s' = [ListLoadBalancersCall ''compartment-1'' \<lparr>Page = []\<rparr>,
                  ListLoadBalancersCall ''compartment-1'' \<lparr>Page = ''2''\<rparr>]"
    using GetLoadBalancerByName_first_match[OF h, of "''ingress''"] by (simp add: fixture_defs)
  have r2: "\<exists>s'. GetLoadBalancerByName cloud ''missing'' start =
            Some (Inl (SearchError (CouldNotFindLoadBalancer ''missing'') True), s') \<and>
      calls s' = [ListLoadBalancersCall ''compartment-1'' \<lparr>Page = []\<rparr>,
                  ListLoadBalancersCall ''compartment-1'' \<lparr>Page = ''2''\<rparr>,
                  ListLoadBalancersCall ''compartment-1'' \<lparr>Page = ''3''\<rparr>]"
    using GetLoadBalancerByName_first_match[OF h, of "''missing''"] by (simp add: fixture_defs)
  from h n r1 r2 show ?thesis by blast
qed

section \<open>The vnic scan\<close>

lemma GetVnic_answer:
  assumes "fst (sdkGetVnic (Client c) ocid (world s)) = Inr v"
  shows "\<exists>s'. GetVnic c ocid s = (Inr v, s') \<and> calls s' = calls s @ [GetVnicCall ocid]"
  using assms by (cases "sdkGetVnic (Client c) ocid (world s)") (simp add: GetVnic_def invoke_def)

lemma GetInstance_answer:
  assumes "fst (sdkGetInstance (Client c) ocid (world s)) = Inr i"
  shows "\<exists>s'. GetInstance c ocid s = (Inr i, s') \<and> calls s' = calls s @ [GetInstanceCall ocid]"
  using assms by (cases "sdkGetInstance (Client c) ocid (world s)") (simp add: GetInstance_def invoke_def)

lemma ListVnicAttachments_answer:
  assumes "fst (sdkListVnicAttachments (Client c) compartment opts (world s)) = Inr p"
  shows "\<exists>s'. ListVnicAttachments c compartment opts s = (Inr p, s') \<and>
           calls s' = calls s @ [ListVnicAttachmentsCall compartment opts]"
  using assms
  by (cases "sdkListVnicAttachments (Client c) compartment opts (world s)")
    (simp add: ListVnicAttachments_def invoke_def)

lemma keptInstances_Cons:
  "keptInstances nodeName vnicOf instanceOf (a # atts) =
     (if Attachment_State a = ResourceAttached \<and>
         matchesNodeName nodeName (vnicOf (Attachment_VnicID a)) \<and>
         Instance_State (instanceOf (Attachment_InstanceID a)) = ResourceRunning
      then [instanceOf (Attachment_InstanceID a)] else []) @
     keptInstances nodeName vnicOf instanceOf atts"
  by (simp add: keptInstances_def)

lemma scanAttachments_Cons:
  "scanAttachments c nodeName (attachment # rest) running s =
     (if Attachment_State attachment = ResourceAttached then
        (case GetVnic c (Attachment_VnicID attachment) s of
           (Inl err, s') \<Rightarrow> (Inl err, s')
         | (Inr vnic, s') \<Rightarrow>
             if matchesNodeName nodeName vnic then
               (case GetInstance c (Attachment_InstanceID attachment) s' of
                  (Inl err, s'') \<Rightarrow> (Inl err, s'')
                | (Inr instance, s'') \<Rightarrow>
                    scanAttachments c nodeName rest
                      (if Instance_State instance = ResourceRunning then running @ [instance]
                       else running) s'')
             else scanAttachments c nodeName rest running s')
      else scanAttachments c nodeName rest running s)"
  unfolding matchesNodeName_def by simp

lemma scanAttachments_kept:
  assumes "\<forall>a\<in>set atts. Attachment_State a = ResourceAttached \<longrightarrow>
             (\<forall>w. fst (sdkGetVnic (Client c) (Attachment_VnicID a) w) = Inr (vnicOf (Attachment_VnicID a)))"
    and "\<forall>a\<in>set atts. Attachment_State a = ResourceAttached \<longrightarrow>
             (\<forall>w. fst (sdkGetInstance (Client c) (Attachment_InstanceID a) w) =
                   Inr (instanceOf (Attachment_InstanceID a)))"
  shows "\<exists>s'. scanAttachments c nodeName atts running s =
                 (Inr (running @ keptInstances nodeName vnicOf instanceOf atts), s') \<and>
              filter listingCall (calls s') = filter listingCall (calls s)"
  using assms
proof (induction atts arbitrary: running s)
  case Nil
  then show ?case by (simp add: keptInstances_def)
next
  case (Cons a atts)
  from Cons.prems have rest:
    "\<forall>a\<in>set atts. Attachment_State a = ResourceAttached \<longrightarrow>
       (\<forall>w. fst (sdkGetVnic (Client c) (Attachment_VnicID a) w) = Inr (vnicOf (Attachment_VnicID a)))"
    "\<forall>a\<in>set atts. Attachment_State a = ResourceAttached \<longrightarrow>
       (\<forall>w. fst (sdkGetInstance (Client c) (Attachment_InstanceID a) w) =
             Inr (instanceOf (Attachment_InstanceID a)))"
    by simp_all
  note IH = Cons.IH[OF rest]
  show ?case
  proof (cases "Attachment_State a = ResourceAttached")
    case False
    with IH[of running s] show ?thesis by (simp add: keptInstances_Cons)
  next
    case True
    with Cons.prems(1) have "fst (sdkGetVnic (Client c) (Attachment_VnicID a) (world s)) =
        Inr (vnicOf (Attachment_VnicID a))"
      by simp
    from GetVnic_answer[OF this] obtain s1 where
      gv: "GetVnic c (Attachment_VnicID a) s = (Inr (vnicOf (Attachment_VnicID a)), s1)"
      and "calls s1 = calls s @ [GetVnicCall (Attachment_VnicID a)]"
      by blast
    then have c1: "filter listingCall (calls s1) = filter listingCall (calls s)" by simp
    show ?thesis
    proof (cases "matchesNodeName nodeName (vnicOf (Attachment_VnicID a))")
      case False
      with IH[of running s1] True gv c1 show ?thesis
        by (simp add: keptInstances_Cons scanAttachments_Cons del: scanAttachments.simps)
    next
      case m: True
      from True Cons.prems(2) have "fst (sdkGetInstance (Client c) (Attachment_InstanceID a) (world s1)) =
          Inr (instanceOf (Attachment_InstanceID a))"
        by simp
      from GetInstance_answer[OF this] obtain s2 where
        gi: "GetInstance c (Attachment_InstanceID a) s1 = (Inr (instanceOf (Attachment_InstanceID a)), s2)"
        and "calls s2 = calls s1 @ [GetInstanceCall (Attachment_InstanceID a)]"
        by blast
      with c1 have c2: "filter listingCall (calls s2) = filter listingCall (calls s)" by simp
      show ?thesis
      proof (cases "Instance_State (instanceOf (Attachment_InstanceID a)) = ResourceRunning")
        case r: True
        with IH[of "running @ [instanceOf (Attachment_InstanceID a)]" s2] True gv gi m c2 show ?thesis
          by (simp add: keptInstances_Cons scanAttachments_Cons del: scanAttachments.simps)
      next
        case r: False
        with IH[of running s2] True gv gi m c2 show ?thesis
          by (simp add: keptInstances_Cons scanAttachments_Cons del: scanAttachments.simps)
      qed
    qed
  qed
qed

lemma keptInstances_append:
  "keptInstances nodeName vnicOf instanceOf (xs @ ys) =
     keptInstances nodeName vnicOf instanceOf xs @ keptInstances nodeName vnicOf instanceOf ys"
  by (simp add: keptInstances_def)

lemma scanVnicAttachments_kept:
  assumes "answers (\<lambda>opts. sdkListVnicAttachments (Client c) (compartmentOCID c) (Some opts)) opts pages"
    and "pages \<noteq> []" and "NextPage (last pages) = []"
    and "\<forall>a\<in>set (concat (map Attachments pages)). Attachment_State a = ResourceAttached \<longrightarrow>
             (\<forall>w. fst (sdkGetVnic (Client c) (Attachment_VnicID a) w) = Inr (vnicOf (Attachment_VnicID a)))"
    and "\<forall>a\<in>set (concat (map Attachments pages)). Attachment_State a = ResourceAttached \<longrightarrow>
             (\<forall>w. fst (sdkGetInstance (Client c) (Attachment_InstanceID a) w) =
                   Inr (instanceOf (Attachment_InstanceID a)))"
  shows "\<exists>s'. scanVnicAttachments c nodeName opts running s =
           Some (Inr (running @ keptInstances nodeName vnicOf instanceOf (concat (map Attachments pages))), s') \<and>
           filter listingCall (calls s') = filter listingCall (calls s) @
             map (\<lambda>opts. ListVnicAttachmentsCall (compartmentOCID c) (Some opts)) (fedOptions opts pages)"
  using assms
proof (induction pages arbitrary: opts running s)
  case Nil
  then show ?case by simp
next
  case (Cons p ps)
  from Cons.prems(1) have "fst (sdkListVnicAttachments (Client c) (compartmentOCID c) (Some opts) (world s)) = Inr p"
    by simp
  from ListVnicAttachments_answer[OF this] obtain s1 where
    la: "ListVnicAttachments c (compartmentOCID c) (Some opts) s = (Inr p, s1)"
    and c1: "calls s1 = calls s @ [ListVnicAttachmentsCall (compartmentOCID c) (Some opts)]"
    by blast
  from Cons.prems(4,5) have here:
    "\<forall>a\<in>set (Attachments p). Attachment_State a = ResourceAttached \<longrightarrow>
       (\<forall>w. fst (sdkGetVnic (Client c) (Attachment_VnicID a) w) = Inr (vnicOf (Attachment_VnicID a)))"
    "\<forall>a\<in>set (Attachments p). Attachment_State a = ResourceAttached \<longrightarrow>
       (\<forall>w. fst (sdkGetInstance (Client c) (Attachment_InstanceID a) w) =
             Inr (instanceOf (Attachment_InstanceID a)))"
    by simp_all
  from scanAttachments_kept[OF here, of nodeName running s1] obtain s2 where
    sc: "scanAttachments c nodeName (Attachments p) running s1 =
           (Inr (running @ keptInstances nodeName vnicOf instanceOf (Attachments p)), s2)"
    and "filter listingCall (calls s2) = filter listingCall (calls s1)"
    by blast
  with c1 have c2: "filter listingCall (calls s2) =
      filter listingCall (calls s) @ [ListVnicAttachmentsCall (compartmentOCID c) (Some opts)]"
    by simp
  show ?case
  proof (cases "ps = []")
    case True
    with Cons.prems(3) have "NextPage p = []" by simp
    with True la sc c2 show ?thesis
      by (subst scanVnicAttachments.simps) (simp add: SetNextPageOption_def)
  next
    case False
    with Cons.prems(1) have np: "NextPage p \<noteq> []"
      and an: "answers (\<lambda>opts. sdkListVnicAttachments (Client c) (compartmentOCID c) (Some opts))
                 (opts\<lparr>Page := NextPage p\<rparr>) ps"
      by simp_all
    from False Cons.prems(3) have lst: "NextPage (last ps) = []" by simp
    from Cons.prems(4,5) have later:
      "\<forall>a\<in>set (concat (map Attachments ps)). Attachment_State a = ResourceAttached \<longrightarrow>
         (\<forall>w. fst (sdkGetVnic (Client c) (Attachment_VnicID a) w) = Inr (vnicOf (Attachment_VnicID a)))"
      "\<forall>a\<in>set (concat (map Attachments ps)). Attachment_State a = ResourceAttached \<longrightarrow>
         (\<forall>w. fst (sdkGetInstance (Client c) (Attachment_InstanceID a) w) =
               Inr (instanceOf (Attachment_InstanceID a)))"
      by simp_all
    from Cons.IH[OF an False lst later,
        of "running @ keptInstances nodeName vnicOf instanceOf (Attachments p)" s2]
    obtain s' where "scanVnicAttachments c nodeName (opts\<lparr>Page := NextPage p\<rparr>)
        (running @ keptInstances nodeName vnicOf instanceOf (Attachments p)) s2 =
        Some (Inr ((running @ keptInstances nodeName vnicOf instanceOf (Attachments p)) @
                   keptInstances nodeName vnicOf instanceOf (concat (map Attachments ps))), s')"
      and "filter listingCall (calls s') = filter listingCall (calls s2) @
             map (\<lambda>opts. ListVnicAttachmentsCall (compartmentOCID c) (Some opts))
               (fedOptions (opts\<lparr>Page := NextPage p\<rparr>) ps)"
      by blast
    with np la sc c2 show ?thesis
      by (subst scanVnicAttachments.simps) (simp add: SetNextPageOption_def keptInstances_append)
  qed
qed

text \<open>
  C4. In the vnic scan, let the listing of vnic attachments answer with the pages
  P1..Pn, and let the vnic and the instance of every Attached attachment be fetched
  without error. An Attached attachment counts when its vnic matches the node name: the
  public IP is the name, or the hostname label is not empty and a prefix of the name.
  The instance that owns it is kept when it is Running. With no instance kept the scan
  fails with a \<open>SearchError\<close> whose \<open>NotFound\<close> flag is set, with two or more kept
  it fails with the error that reports their number (the Ambiguous error), and with
  exactly one it returns that instance.
\<close>

theorem findInstanceByNodeNameIsVnic_matches:
  assumes "answers (\<lambda>opts. sdkListVnicAttachments (Client c) (compartmentOCID c) (Some opts))
             \<lparr>Page = [], InstanceID = []\<rparr> pages"
    and "pages \<noteq> []" and "NextPage (last pages) = []"
    and "\<forall>a\<in>set (concat (map Attachments pages)). Attachment_State a = ResourceAttached \<longrightarrow>
             (\<forall>w. fst (sdkGetVnic (Client c) (Attachment_VnicID a) w) = Inr (vnicOf (Attachment_VnicID a)))"
    and "\<forall>a\<in>set (concat (map Attachments pages)). Attachment_State a = ResourceAttached \<longrightarrow>
             (\<forall>w. fst (sdkGetInstance (Client c) (Attachment_InstanceID a) w) =
                   Inr (instanceOf (Attachment_InstanceID a)))"
    and "kept = keptInstances nodeName vnicOf instanceOf (concat (map Attachments pages))"
  shows "\<exists>s'. findInstanceByNodeNameIsVnic c nodeName s =
           Some (if kept = [] then Inl (SearchError (CouldNotFindInstance nodeName) True)
                 else if 2 \<le> length kept then Inl (ExpectedOneByVnic nodeName (length kept))
                 else Inr (hd kept), s')"
proof -
  from scanVnicAttachments_kept[OF assms(1-5), of nodeName "[]" s] assms(6)
  obtain s' where sc: "scanVnicAttachments c nodeName \<lparr>Page = [], InstanceID = []\<rparr> [] s = Some (Inr kept, s')"
    by auto
  show ?thesis
  proof (cases kept)
    case Nil
    with sc show ?thesis by (simp add: findInstanceByNodeNameIsVnic_def)
  next
    case (Cons i rest)
    with sc show ?thesis by (cases rest) (simp_all add: findInstanceByNodeNameIsVnic_def)
  qed
qed

theorem findInstanceByNodeNameIsVnic_matches_witness:
  "answers (\<lambda>opts. sdkListVnicAttachments (Client cloud) (compartmentOCID cloud) (Some opts))
     \<lparr>Page = [], InstanceID = []\<rparr>
     [\<lparr>NextPage = ''2'', Attachments = [attApp, attOld]\<rparr>, \<lparr>NextPage = [], Attachments = [attWeb, attSpare]\<rparr>] \<and>
   (\<forall>w. fst (sdkGetVnic (Client cloud) ''v-app'' w) = Inr vnicApp) \<and>
   (\<forall>w. fst (sdkGetVnic (Client cloud) ''v-web'' w) = Inr vnicWeb) \<and>
   (\<forall>w. fst (sdkGetVnic (Client cloud) ''v-spare'' w) = Inr vnicSpare) \<and>
   (\<forall>w. fst (sdkGetInstance (Client cloud) ''i-app1'' w) = Inr app1) \<and>
   (\<forall>w. fst (sdkGetInstance (Client cloud) ''i-web1'' w) = Inr web1) \<and>
   keptInstances ''app-1.sub1.vcn.oraclevcn.com'' vnicTable instanceTable [attApp, attOld, attWeb, attSpare] = [app1] \<and>
   (\<exists>s'. findInstanceByNodeNameIsVnic cloud ''app-1.sub1.vcn.oraclevcn.com'' start = Some (Inr app1, s'))"
proof -
  have h1: "answers (\<lambda>opts. sdkListVnicAttachments (Client cloud) (compartmentOCID cloud) (Some opts))
     \<lparr>Page = [], InstanceID = []\<rparr>
     [\<lparr>NextPage = ''2'', Attachments = [attApp, attOld]\<rparr>, \<lparr>NextPage = [], Attachments = [attWeb, attSpare]\<rparr>]"
    by (simp add: fixture_defs)
  have h2: "\<forall>a\<in>set (concat (map Attachments
       [\<lparr>NextPage = ''2'', Attachments = [attApp, attOld]\<rparr>, \<lparr>NextPage = [], Attachments = [attWeb, attSpare]\<rparr>])).
      Attachment_State a = ResourceAttached \<longrightarrow>
      (\<forall>w. fst (sdkGetVnic (Client cloud) (Attachment_VnicID a) w) = Inr (vnicTable (Attachment_VnicID a)))"
    by (simp add: fixture_defs state_defs)
  have h3: "\<forall>a\<in>set (concat (map Attachments
       [\<lparr>NextPage = ''2'', Attachments = [attApp, attOld]\<rparr>, \<lparr>NextPage = [], Attachments = [attWeb, attSpare]\<rparr>])).
      Attachment_State a = ResourceAttached \<longrightarrow>
      (\<forall>w. fst (sdkGetInstance (Client cloud) (Attachment_InstanceID a) w) =
            Inr (instanceTable (Attachment_InstanceID a)))"
    by (simp add: fixture_defs state_defs)
  have k: "keptInstances ''app-1.sub1.vcn.oraclevcn.com'' vnicTable instanceTable [attApp, attOld, attWeb, attSpare] = [app1]"
    by (simp add: keptInstances_def matchesNodeName_def fixture_defs state_defs)
  from findInstanceByNodeNameIsVnic_matches[OF h1 _ _ h2 h3, of "[app1]" "''app-1.sub1.vcn.oraclevcn.com''" start] k
  have "\<exists>s'. findInstanceByNodeNameIsVnic cloud ''app-1.sub1.vcn.oraclevcn.com'' start = Some (Inr app1, s')"
    by simp
  moreover have "(\<forall>w. fst (sdkGetVnic (Client cloud) ''v-app'' w) = Inr vnicApp) \<and>
      (\<forall>w. fst (sdkGetVnic (Client cloud) ''v-web'' w) = Inr vnicWeb) \<and>
      (\<forall>w. fst (sdkGetVnic (Client cloud) ''v-spare'' w) = Inr vnicSpare) \<and>
      (\<forall>w. fst (sdkGetInstance (Client cloud) ''i-app1'' w) = Inr app1) \<and>
      (\<forall>w. fst (sdkGetInstance (Client cloud) ''i-web1'' w) = Inr web1)"
    by (simp add: cloud_def cloudSdk_def vnicAt_def instanceAt_def)
  ultimately show ?thesis using h1 k by simp
qed

section \<open>AwaitWorkRequest\<close>

lemma pollWorkRequest_answer:
  assumes "sdkGetWorkRequest (Client c) ocid (world s) = (r, w1)"
  shows "pollWorkRequest c ocid (wr, s) =
    (case r of
       Inl reqErr \<Rightarrow> ((False, Some reqErr), (wr, \<lparr>calls = calls s @ [GetWorkRequestCall ocid], world = w1\<rparr>))
     | Inr twr \<Rightarrow>
         if WorkRequest_State twr = WorkRequestSucceeded then
           ((True, None), (Some twr, \<lparr>calls = calls s @ [GetWorkRequestCall ocid], world = w1\<rparr>))
         else if WorkRequest_State twr = WorkRequestFailed then
           ((False, Some (WorkRequestFailedError ocid (WorkRequest_Message twr))),
            (wr, \<lparr>calls = calls s @ [GetWorkRequestCall ocid], world = w1\<rparr>))
         else ((False, None), (wr, \<lparr>calls = calls s @ [GetWorkRequestCall ocid], world = w1\<rparr>)))"
  using assms by (simp add: pollWorkRequest_def GetWorkRequest_def invoke_def split: sum.splits)

lemma attempts_pending:
  assumes "polls c ocid (world s) (map Inr pending @ rest)"
    and "\<forall>p\<in>set pending. WorkRequest_State p \<noteq> WorkRequestSucceeded \<and>
                           WorkRequest_State p \<noteq> WorkRequestFailed"
    and "length pending \<le> n"
  shows "\<exists>w'. attempts n (pollWorkRequest c ocid) (wr, s) =
           attempts (n - length pending) (pollWorkRequest c ocid)
             (wr, \<lparr>calls = calls s @ replicate (length pending) (GetWorkRequestCall ocid), world = w'\<rparr>) \<and>
           polls c ocid w' rest"
  using assms
proof (induction pending arbitrary: n s)
  case Nil
  have "s = \<lparr>calls = calls s, world = world s\<rparr>" by simp
  with Nil show ?case by (metis append_Nil append_Nil2 diff_zero list.map(1) list.size(3) replicate_0)
next
  case (Cons p pending)
  from Cons.prems(3) obtain m where n: "n = Suc m" and m: "length pending \<le> m"
    by (cases n) simp_all
  obtain r w1 where call: "sdkGetWorkRequest (Client c) ocid (world s) = (r, w1)"
    by (cases "sdkGetWorkRequest (Client c) ocid (world s)")
  let ?s1 = "\<lparr>calls = calls s @ [GetWorkRequestCall ocid], world = w1\<rparr>"
  from Cons.prems(1) call have r: "r = Inr p" and rest: "polls c ocid (world ?s1) (map Inr pending @ rest)"
    by simp_all
  from Cons.prems(2) have p: "WorkRequest_State p \<noteq> WorkRequestSucceeded" "WorkRequest_State p \<noteq> WorkRequestFailed"
    and ps: "\<forall>p\<in>set pending. WorkRequest_State p \<noteq> WorkRequestSucceeded \<and>
                           WorkRequest_State p \<noteq> WorkRequestFailed"
    by simp_all
  have step: "attempts n (pollWorkRequest c ocid) (wr, s) = attempts m (pollWorkRequest c ocid) (wr, ?s1)"
    using pollWorkRequest_answer[OF call, of wr] r p n by simp
  from Cons.IH[OF rest ps m] obtain w' where
    "attempts m (pollWorkRequest c ocid) (wr, ?s1) =
       attempts (m - length pending) (pollWorkRequest c ocid)
         (wr, \<lparr>calls = calls ?s1 @ replicate (length pending) (GetWorkRequestCall ocid), world = w'\<rparr>)"
    and "polls c ocid w' rest"
    by auto
  with step n show ?case by (auto simp: replicate_app_Cons_same)
qed

lemma attempts_last:
  assumes "polls c ocid (world s) (map Inr pending @ [r])"
    and "\<forall>p\<in>set pending. WorkRequest_State p \<noteq> WorkRequestSucceeded \<and>
                           WorkRequest_State p \<noteq> WorkRequestFailed"
    and "length pending < n"
  shows "\<exists>w1 w2. attempts n (pollWorkRequest c ocid) (wr, s) =
           attempts (Suc (n - Suc (length pending))) (pollWorkRequest c ocid)
             (wr, \<lparr>calls = calls s @ replicate (length pending) (GetWorkRequestCall ocid), world = w1\<rparr>) \<and>
           sdkGetWorkRequest (Client c) ocid w1 = (r, w2)"
proof -
  from assms(3) have le: "length pending \<le> n" by simp
  from attempts_pending[OF assms(1,2) le, of wr] obtain w1 where
    a: "attempts n (pollWorkRequest c ocid) (wr, s) =
           attempts (n - length pending) (pollWorkRequest c ocid)
             (wr, \<lparr>calls = calls s @ replicate (length pending) (GetWorkRequestCall ocid), world = w1\<rparr>)"
    and p: "polls c ocid w1 [r]"
    by blast
  from p obtain w2 where "sdkGetWorkRequest (Client c) ocid w1 = (r, w2)"
    by (cases "sdkGetWorkRequest (Client c) ocid w1") simp
  moreover from assms(3) have "n - length pending = Suc (n - Suc (length pending))" by simp
  ultimately show ?thesis using a by auto
qed

lemma Steps_backoff: "nat (Steps backoff) = 15"
  by (simp add: backoff_def)

lemma Succeeded_not_Failed: "WorkRequestSucceeded \<noteq> WorkRequestFailed"
  by (simp add: state_defs)


lemma AwaitWorkRequest_terminal:
  assumes "polls c ocid (world s) (map Inr pending @ [r])"
    and "\<forall>p\<in>set pending. WorkRequest_State p \<noteq> WorkRequestSucceeded \<and>
                           WorkRequest_State p \<noteq> WorkRequestFailed"
    and "length pending < 15"
    and "r = Inl reqErr \<and> out = (None, Some reqErr) \<or>
         r = Inr twr \<and> WorkRequest_State twr = WorkRequestSucceeded \<and> out = (Some twr, None) \<or>
         r = Inr twr \<and> WorkRequest_State twr = WorkRequestFailed \<and>
           out = (None, Some (WorkRequestFailedError ocid (WorkRequest_Message twr)))"
  shows "\<exists>w'. AwaitWorkRequest c ocid s =
           (out, \<lparr>calls = calls s @ replicate (Suc (length pending)) (GetWorkRequestCall ocid), world = w'\<rparr>)"
proof -
  from attempts_last[OF assms(1,2), of 15 None] assms(3) obtain w1 w2 where
    a: "attempts 15 (pollWorkRequest c ocid) (None, s) =
           attempts (Suc (15 - Suc (length pending))) (pollWorkRequest c ocid)
             (None, \<lparr>calls = calls s @ replicate (length pending) (GetWorkRequestCall ocid), world = w1\<rparr>)"
    and g: "sdkGetWorkRequest (Client c) ocid w1 = (r, w2)"
    by auto
  let ?s1 = "\<lparr>calls = calls s @ replicate (length pending) (GetWorkRequestCall ocid), world = w1\<rparr>"
  from g have g': "sdkGetWorkRequest (Client c) ocid (world ?s1) = (r, w2)" by simp
  have "attempts (Suc (15 - Suc (length pending))) (pollWorkRequest c ocid) (None, ?s1) =
          (snd out, (fst out, \<lparr>calls = calls ?s1 @ [GetWorkRequestCall ocid], world = w2\<rparr>))"
    using assms(4) Succeeded_not_Failed
    by (auto simp: pollWorkRequest_answer[OF g'])
  with a show ?thesis
    by (simp add: AwaitWorkRequest_def ExponentialBackoff_def Steps_backoff replicate_append_same)
qed



text \<open>
  C6, within the budget of 15 attempts. Let the backend answer the polls of a work
  request with k answers whose state is neither Succeeded nor Failed, and then with a
  last answer, where k < 15. When the last answer is a work request in state Succeeded,
  \<open>AwaitWorkRequest\<close> returns it, without error. When it is a work request in state
  Failed, the result is the error that carries the message of the work request. When it
  is an error of the fetch, the result is that error. In each case the polls made are
  exactly k + 1: there is no poll after the last answer, and a failed fetch is not
  retried.
\<close>

theorem AwaitWorkRequest_state_machine:
  assumes "polls c ocid (world s) (map Inr pending @ [r])"
    and "\<forall>p\<in>set pending. WorkRequest_State p \<noteq> WorkRequestSucceeded \<and>
                           WorkRequest_State p \<noteq> WorkRequestFailed"
    and "length pending < 15"
  shows "(\<forall>twr. r = Inr twr \<and> WorkRequest_State twr = WorkRequestSucceeded \<longrightarrow>
            (\<exists>w'. AwaitWorkRequest c ocid s =
               ((Some twr, None),
                \<lparr>calls = calls s @ replicate (length pending + 1) (GetWorkRequestCall ocid), world = w'\<rparr>))) \<and>
         (\<forall>twr. r = Inr twr \<and> WorkRequest_State twr = WorkRequestFailed \<longrightarrow>
            (\<exists>w'. AwaitWorkRequest c ocid s =
               ((None, Some (WorkRequestFailedError ocid (WorkRequest_Message twr))),
                \<lparr>calls = calls s @ replicate (length pending + 1) (GetWorkRequestCall ocid), world = w'\<rparr>))) \<and>
         (\<forall>reqErr. r = Inl reqErr \<longrightarrow>
            (\<exists>w'. AwaitWorkRequest c ocid s =
               ((None, Some reqErr),
                \<lparr>calls = calls s @ replicate (length pending + 1) (GetWorkRequestCall ocid), world = w'\<rparr>)))"
proof (intro conjI allI impI)
  fix twr
  assume "r = Inr twr \<and> WorkRequest_State twr = WorkRequestSucceeded"
  then show "\<exists>w'. AwaitWorkRequest c ocid s =
               ((Some twr, None),
                \<lparr>calls = calls s @ replicate (length pending + 1) (GetWorkRequestCall ocid), world = w'\<rparr>)"
    using AwaitWorkRequest_terminal[OF assms, of _ "(Some twr, None)" twr] by simp
next
  fix twr
  assume "r = Inr twr \<and> WorkRequest_State twr = WorkRequestFailed"
  then show "\<exists>w'. AwaitWorkRequest c ocid s =
               ((None, Some (WorkRequestFailedError ocid (WorkRequest_Message twr))),
                \<lparr>calls = calls s @ replicate (length pending + 1) (GetWorkRequestCall ocid), world = w'\<rparr>)"
    using AwaitWorkRequest_terminal[OF assms, of _
        "(None, Some (WorkRequestFailedError ocid (WorkRequest_Message twr)))" twr]
    by simp
next
  fix reqErr
  assume "r = Inl reqErr"
  then show "\<exists>w'. AwaitWorkRequest c ocid s =
               ((None, Some reqErr),
                \<lparr>calls = calls s @ replicate (length pending + 1) (GetWorkRequestCall ocid), world = w'\<rparr>)"
    using AwaitWorkRequest_terminal[OF assms, of reqErr "(None, Some reqErr)"] by simp
qed

theorem AwaitWorkRequest_state_machine_witness:
  "polls cloud ''wr-quick'' (world start)
     (map Inr [inProgress ''wr-quick'', inProgress ''wr-quick''] @ [Inr (succeeded ''wr-quick'')]) \<and>
   WorkRequest_State (inProgress ''wr-quick'') \<noteq> WorkRequestSucceeded \<and>
   WorkRequest_State (inProgress ''wr-quick'') \<noteq> WorkRequestFailed \<and>
   WorkRequest_State (succeeded ''wr-quick'') = WorkRequestSucceeded \<and>
   (\<exists>w'. AwaitWorkRequest cloud ''wr-quick'' start =
      ((Some (succeeded ''wr-quick''), None),
       \<lparr>calls = [GetWorkRequestCall ''wr-quick'', GetWorkRequestCall ''wr-quick'',
                 GetWorkRequestCall ''wr-quick''], world = w'\<rparr>)) \<and>
   polls cloud ''wr-bad'' (world start) (map Inr [inProgress ''wr-bad''] @ [Inr (failed ''wr-bad'')]) \<and>
   (\<exists>w'. AwaitWorkRequest cloud ''wr-bad'' start =
      ((None, Some (WorkRequestFailedError ''wr-bad'' ''out of capacity'')),
       \<lparr>calls = [GetWorkRequestCall ''wr-bad'', GetWorkRequestCall ''wr-bad''], world = w'\<rparr>)) \<and>
   polls cloud ''wr-lost'' (world start)
     (map Inr [inProgress ''wr-lost''] @ [Inl (SdkError ''connection reset'')]) \<and>
   (\<exists>w'. AwaitWorkRequest cloud ''wr-lost'' start =
      ((None, Some (SdkError ''connection reset'')),
       \<lparr>calls = [GetWorkRequestCall ''wr-lost'', GetWorkRequestCall ''wr-lost''], world = w'\<rparr>))"
proof -
  have st: "WorkRequest_State (inProgress x) \<noteq> WorkRequestSucceeded"
    "WorkRequest_State (inProgress x) \<noteq> WorkRequestFailed"
    "WorkRequest_State (succeeded x) = WorkRequestSucceeded"
    "WorkRequest_State (failed x) = WorkRequestFailed" for x
    by (simp_all add: inProgress_def succeeded_def failed_def state_defs)
  have p1: "polls cloud ''wr-quick'' (world start)
     (map Inr [inProgress ''wr-quick'', inProgress ''wr-quick''] @ [Inr (succeeded ''wr-quick'')])"
    by (simp add: cloud_def cloudSdk_def start_def workRequestAt_def)
  have p2: "polls cloud ''wr-bad'' (world start) (map Inr [inProgress ''wr-bad''] @ [Inr (failed ''wr-bad'')])"
    by (simp add: cloud_def cloudSdk_def start_def workRequestAt_def)
  have p3: "polls cloud ''wr-lost'' (world start)
     (map Inr [inProgress ''wr-lost''] @ [Inl (SdkError ''connection reset'')])"
    by (simp add: cloud_def cloudSdk_def start_def workRequestAt_def)
  have a1: "\<exists>w'. AwaitWorkRequest cloud ''wr-quick'' start =
      ((Some (succeeded ''wr-quick''), None),
       \<lparr>calls = [GetWorkRequestCall ''wr-quick'', GetWorkRequestCall ''wr-quick'',
                 GetWorkRequestCall ''wr-quick''], world = w'\<rparr>)"
    using AwaitWorkRequest_state_machine[OF p1] st by (simp add: start_def numeral_3_eq_3)
  have a2: "\<exists>w'. AwaitWorkRequest cloud ''wr-bad'' start =
      ((None, Some (WorkRequestFailedError ''wr-bad'' ''out of capacity'')),
       \<lparr>calls = [GetWorkRequestCall ''wr-bad'', GetWorkRequestCall ''wr-bad''], world = w'\<rparr>)"
    using AwaitWorkRequest_state_machine[OF p2] st by (simp add: start_def failed_def)
  have a3: "\<exists>w'. AwaitWorkRequest cloud ''wr-lost'' start =
      ((None, Some (SdkError ''connection reset'')),
       \<lparr>calls = [GetWorkRequestCall ''wr-lost'', GetWorkRequestCall ''wr-lost''], world = w'\<rparr>)"
    using AwaitWorkRequest_state_machine[OF p3] st by (simp add: start_def)
  from st p1 p2 p3 a1 a2 a3 show ?thesis by blast
qed

text \<open>
  The claim C6 as it is written sets no bound on k. With 15 answers in progress and
  Succeeded as the sixteenth, \<open>AwaitWorkRequest\<close> polls 15 times, not 16, and returns
  the timeout, not the work request.
\<close>

theorem AwaitWorkRequest_sixteenth_counterexample:
  "polls cloud ''wr-slow'' (world start)
     (map Inr (replicate 15 (inProgress ''wr-slow'')) @ [Inr (succeeded ''wr-slow'')]) \<and>
   AwaitWorkRequest cloud ''wr-slow'' start =
     ((None, Some ErrWaitTimeout), \<lparr>calls = replicate 15 (GetWorkRequestCall ''wr-slow''), world = 15\<rparr>)"
  by (simp add: AwaitWorkRequest_def ExponentialBackoff_def backoff_def pollWorkRequest_def
      GetWorkRequest_def invoke_def cloud_def cloudSdk_def start_def workRequestAt_def
      inProgress_def succeeded_def state_defs eval_nat_numeral)

section \<open>Create and await\<close>

lemma CreateAndAwaitLoadBalancer_read:
  assumes "sdkCreateLoadBalancer (Client c) (compartmentOCID c) shape subnets name (world s) = (Inr req, w1)"
    and "polls c req w1 (map Inr pending @ [Inr wr])"
    and "\<forall>p\<in>set pending. WorkRequest_State p \<noteq> WorkRequestSucceeded \<and>
                           WorkRequest_State p \<noteq> WorkRequestFailed"
    and "length pending < 15"
    and "WorkRequest_State wr = WorkRequestSucceeded"
  shows "\<exists>w2. CreateAndAwaitLoadBalancer c name shape subnets s =
           (fst (sdkGetLoadBalancer (Client c) (WorkRequest_LoadBalancerID wr) w2),
            \<lparr>calls = calls s @ [CreateLoadBalancerCall (compartmentOCID c) shape subnets name] @
                      replicate (length pending + 1) (GetWorkRequestCall req) @
                      [GetLoadBalancerCall (WorkRequest_LoadBalancerID wr)],
             world = snd (sdkGetLoadBalancer (Client c) (WorkRequest_LoadBalancerID wr) w2)\<rparr>)"
proof -
  let ?s1 = "\<lparr>calls = calls s @ [CreateLoadBalancerCall (compartmentOCID c) shape subnets name], world = w1\<rparr>"
  have cr: "CreateLoadBalancer c (compartmentOCID c) shape subnets name s = (Inr req, ?s1)"
    using assms(1) by (simp add: CreateLoadBalancer_def invoke_def)
  from assms(2) have p: "polls c req (world ?s1) (map Inr pending @ [Inr wr])" by simp
  from AwaitWorkRequest_terminal[OF p assms(3,4), of _ "(Some wr, None)" wr] assms(5)
  obtain w2 where aw: "AwaitWorkRequest c req ?s1 =
      ((Some wr, None), \<lparr>calls = calls ?s1 @ replicate (Suc (length pending)) (GetWorkRequestCall req), world = w2\<rparr>)"
    by auto
  show ?thesis
    by (rule exI[of _ w2])
      (simp add: CreateAndAwaitLoadBalancer_def cr aw GetLoadBalancer_def invoke_def split: prod.splits)
qed

lemma CreateAndAwaitBackendSet_read:
  assumes "sdkCreateBackendSet (Client c) (LoadBalancer_ID lb) bs (world s) = (Inr req, w1)"
    and "polls c req w1 (map Inr pending @ [Inr wr])"
    and "\<forall>p\<in>set pending. WorkRequest_State p \<noteq> WorkRequestSucceeded \<and>
                           WorkRequest_State p \<noteq> WorkRequestFailed"
    and "length pending < 15"
    and "WorkRequest_State wr = WorkRequestSucceeded"
  shows "\<exists>w2. CreateAndAwaitBackendSet c lb bs s =
           (fst (sdkGetBackendSet (Client c) (LoadBalancer_ID lb) (BackendSet_Name bs) w2),
            \<lparr>calls = calls s @ [CreateBackendSetCall (LoadBalancer_ID lb) bs] @
                      replicate (length pending + 1) (GetWorkRequestCall req) @
                      [GetBackendSetCall (LoadBalancer_ID lb) (BackendSet_Name bs)],
             world = snd (sdkGetBackendSet (Client c) (LoadBalancer_ID lb) (BackendSet_Name bs) w2)\<rparr>)"
proof -
  let ?s1 = "\<lparr>calls = calls s @ [CreateBackendSetCall (LoadBalancer_ID lb) bs], world = w1\<rparr>"
  have cr: "CreateBackendSet c (LoadBalancer_ID lb) bs s = (Inr req, ?s1)"
    using assms(1) by (simp add: CreateBackendSet_def invoke_def)
  from assms(2) have p: "polls c req (world ?s1) (map Inr pending @ [Inr wr])" by simp
  from AwaitWorkRequest_terminal[OF p assms(3,4), of _ "(Some wr, None)" wr] assms(5)
  obtain w2 where aw: "AwaitWorkRequest c req ?s1 =
      ((Some wr, None), \<lparr>calls = calls ?s1 @ replicate (Suc (length pending)) (GetWorkRequestCall req), world = w2\<rparr>)"
    by auto
  show ?thesis
    by (rule exI[of _ w2])
      (simp add: CreateAndAwaitBackendSet_def cr aw GetBackendSet_def invoke_def split: prod.splits)
qed

lemma CreateAndAwaitListener_no_read:
  assumes "sdkCreateListener (Client c) (LoadBalancer_ID lb) listener (world s) = (Inr req, w1)"
    and "polls c req w1 (map Inr pending @ [Inr wr])"
    and "\<forall>p\<in>set pending. WorkRequest_State p \<noteq> WorkRequestSucceeded \<and>
                           WorkRequest_State p \<noteq> WorkRequestFailed"
    and "length pending < 15"
    and "WorkRequest_State wr = WorkRequestSucceeded"
  shows "\<exists>w2. CreateAndAwaitListener c lb listener s =
           (None,
            \<lparr>calls = calls s @ [CreateListenerCall (LoadBalancer_ID lb) listener] @
                      replicate (length pending + 1) (GetWorkRequestCall req),
             world = w2\<rparr>)"
proof -
  let ?s1 = "\<lparr>calls = calls s @ [CreateListenerCall (LoadBalancer_ID lb) listener], world = w1\<rparr>"
  have cr: "CreateListener c (LoadBalancer_ID lb) listener s = (Inr req, ?s1)"
    using assms(1) by (simp add: CreateListener_def invoke_def)
  from assms(2) have p: "polls c req (world ?s1) (map Inr pending @ [Inr wr])" by simp
  from AwaitWorkRequest_terminal[OF p assms(3,4), of _ "(Some wr, None)" wr] assms(5)
  obtain w2 where aw: "AwaitWorkRequest c req ?s1 =
      ((Some wr, None), \<lparr>calls = calls ?s1 @ replicate (Suc (length pending)) (GetWorkRequestCall req), world = w2\<rparr>)"
    by auto
  show ?thesis
    by (rule exI[of _ w2]) (simp add: CreateAndAwaitListener_def cr aw)
qed

text \<open>
  C5, for what each operation returns. Each of the three operations issues its
  mutating call, takes the id of the work request from the answer and awaits that work
  request; let it succeed after k answers in progress, k < 15. Then
  \<open>CreateAndAwaitLoadBalancer\<close> makes one more call, which reads the load balancer named
  by the work request, and returns what that call returns;
  \<open>CreateAndAwaitBackendSet\<close> makes one more call, which reads the backend set by the id
  of the load balancer and the name of the set, and returns what that call returns;
  \<open>CreateAndAwaitListener\<close> makes no call after the wait and returns no error, and
  nothing else.
\<close>

theorem CreateAndAwait_sequence:
  assumes "polls c req w1 (map Inr pending @ [Inr wr])"
    and "\<forall>p\<in>set pending. WorkRequest_State p \<noteq> WorkRequestSucceeded \<and>
                           WorkRequest_State p \<noteq> WorkRequestFailed"
    and "length pending < 15"
    and "WorkRequest_State wr = WorkRequestSucceeded"
  shows "(sdkCreateLoadBalancer (Client c) (compartmentOCID c) shape subnets name (world s) = (Inr req, w1) \<longrightarrow>
          (\<exists>w2. CreateAndAwaitLoadBalancer c name shape subnets s =
             (fst (sdkGetLoadBalancer (Client c) (WorkRequest_LoadBalancerID wr) w2),
              \<lparr>calls = calls s @ [CreateLoadBalancerCall (compartmentOCID c) shape subnets name] @
                        replicate (length pending + 1) (GetWorkRequestCall req) @
                        [GetLoadBalancerCall (WorkRequest_LoadBalancerID wr)],
               world = snd (sdkGetLoadBalancer (Client c) (WorkRequest_LoadBalancerID wr) w2)\<rparr>))) \<and>
         (sdkCreateBackendSet (Client c) (LoadBalancer_ID lb) bs (world s) = (Inr req, w1) \<longrightarrow>
          (\<exists>w2. CreateAndAwaitBackendSet c lb bs s =
             (fst (sdkGetBackendSet (Client c) (LoadBalancer_ID lb) (BackendSet_Name bs) w2),
              \<lparr>calls = calls s @ [CreateBackendSetCall (LoadBalancer_ID lb) bs] @
                        replicate (length pending + 1) (GetWorkRequestCall req) @
                        [GetBackendSetCall (LoadBalancer_ID lb) (BackendSet_Name bs)],
               world = snd (sdkGetBackendSet (Client c) (LoadBalancer_ID lb) (BackendSet_Name bs) w2)\<rparr>))) \<and>
         (sdkCreateListener (Client c) (LoadBalancer_ID lb) listener (world s) = (Inr req, w1) \<longrightarrow>
          (\<exists>w2. CreateAndAwaitListener c lb listener s =
             (None,
              \<lparr>calls = calls s @ [CreateListenerCall (LoadBalancer_ID lb) listener] @
                        replicate (length pending + 1) (GetWorkRequestCall req),
               world = w2\<rparr>)))"
  using CreateAndAwaitLoadBalancer_read[OF _ assms] CreateAndAwaitBackendSet_read[OF _ assms]
    CreateAndAwaitListener_no_read[OF _ assms]
  by blast

theorem CreateAndAwait_sequence_witness:
  "polls cloud ''wr-quick'' 0
     (map Inr [inProgress ''wr-quick'', inProgress ''wr-quick''] @ [Inr (succeeded ''wr-quick'')]) \<and>
   sdkCreateLoadBalancer (Client cloud) (compartmentOCID cloud) ''100Mbps'' [''subnet-a''] ''ingress''
     (world start) = (Inr ''wr-quick'', 0) \<and>
   (\<exists>w2. CreateAndAwaitLoadBalancer cloud ''ingress'' ''100Mbps'' [''subnet-a''] start =
      (Inr lb1,
       \<lparr>calls = [CreateLoadBalancerCall ''compartment-1'' ''100Mbps'' [''subnet-a''] ''ingress'',
                 GetWorkRequestCall ''wr-quick'', GetWorkRequestCall ''wr-quick'',
                 GetWorkRequestCall ''wr-quick'', GetLoadBalancerCall ''lb-1''],
        world = w2\<rparr>)) \<and>
   sdkCreateBackendSet (Client cloud) (LoadBalancer_ID lb1) backendSet1 (world start) = (Inr ''wr-quick'', 0) \<and>
   (\<exists>w2. CreateAndAwaitBackendSet cloud lb1 backendSet1 start =
      (Inr backendSet1,
       \<lparr>calls = [CreateBackendSetCall ''lb-1'' backendSet1,
                 GetWorkRequestCall ''wr-quick'', GetWorkRequestCall ''wr-quick'',
                 GetWorkRequestCall ''wr-quick'', GetBackendSetCall ''lb-1'' ''TCP-443''],
        world = w2\<rparr>)) \<and>
   sdkCreateListener (Client cloud) (LoadBalancer_ID lb1) listener1 (world start) = (Inr ''wr-quick'', 0) \<and>
   (\<exists>w2. CreateAndAwaitListener cloud lb1 listener1 start =
      (None,
       \<lparr>calls = [CreateListenerCall ''lb-1'' listener1,
                 GetWorkRequestCall ''wr-quick'', GetWorkRequestCall ''wr-quick'',
                 GetWorkRequestCall ''wr-quick''],
        world = w2\<rparr>))"
proof -
  have st: "\<forall>p\<in>set [inProgress ''wr-quick'', inProgress ''wr-quick''].
      WorkRequest_State p \<noteq> WorkRequestSucceeded \<and> WorkRequest_State p \<noteq> WorkRequestFailed"
    "WorkRequest_State (succeeded ''wr-quick'') = WorkRequestSucceeded"
    by (simp_all add: inProgress_def succeeded_def state_defs)
  have p: "polls cloud ''wr-quick'' 0
     (map Inr [inProgress ''wr-quick'', inProgress ''wr-quick''] @ [Inr (succeeded ''wr-quick'')])"
    by (simp add: cloud_def cloudSdk_def workRequestAt_def)
  have c1: "sdkCreateLoadBalancer (Client cloud) (compartmentOCID cloud) ''100Mbps'' [''subnet-a''] ''ingress''
     (world start) = (Inr ''wr-quick'', 0)"
    and c2: "sdkCreateBackendSet (Client cloud) (LoadBalancer_ID lb1) backendSet1 (world start) = (Inr ''wr-quick'', 0)"
    and c3: "sdkCreateListener (Client cloud) (LoadBalancer_ID lb1) listener1 (world start) = (Inr ''wr-quick'', 0)"
    by (simp_all add: cloud_def cloudSdk_def start_def)
  have len: "length [inProgress ''wr-quick'', inProgress ''wr-quick''] < 15" by simp
  note inst = CreateAndAwait_sequence[OF p st(1) len st(2), of "''100Mbps''" "[''subnet-a'']" "''ingress''" start
      lb1 backendSet1 listener1]
  from inst c1 have r1: "\<exists>w2. CreateAndAwaitLoadBalancer cloud ''ingress'' ''100Mbps'' [''subnet-a''] start =
      (Inr lb1,
       \<lparr>calls = [CreateLoadBalancerCall ''compartment-1'' ''100Mbps'' [''subnet-a''] ''ingress'',
                 GetWorkRequestCall ''wr-quick'', GetWorkRequestCall ''wr-quick'',
                 GetWorkRequestCall ''wr-quick'', GetLoadBalancerCall ''lb-1''],
        world = w2\<rparr>)"
    by (simp add: cloud_def cloudSdk_def start_def succeeded_def numeral_3_eq_3)
  from inst c2 have r2: "\<exists>w2. CreateAndAwaitBackendSet cloud lb1 backendSet1 start =
      (Inr backendSet1,
       \<lparr>calls = [CreateBackendSetCall ''lb-1'' backendSet1,
                 GetWorkRequestCall ''wr-quick'', GetWorkRequestCall ''wr-quick'',
                 GetWorkRequestCall ''wr-quick'', GetBackendSetCall ''lb-1'' ''TCP-443''],
        world = w2\<rparr>)"
    by (simp add: cloud_def cloudSdk_def start_def lb1_def numeral_3_eq_3) (simp add: backendSet1_def)
  from inst c3 have r3: "\<exists>w2. CreateAndAwaitListener cloud lb1 listener1 start =
      (None,
       \<lparr>calls = [CreateListenerCall ''lb-1'' listener1,
                 GetWorkRequestCall ''wr-quick'', GetWorkRequestCall ''wr-quick'',
                 GetWorkRequestCall ''wr-quick''],
        world = w2\<rparr>)"
    by (simp add: cloud_def cloudSdk_def start_def lb1_def numeral_3_eq_3)
  from p c1 c2 c3 r1 r2 r3 show ?thesis by blast
qed

text \<open>
  The claim C5 as it is written has the listener read back after the wait.
  \<open>CreateAndAwaitListener\<close> ends with the last poll: after it there is no call, and the
  result is the absence of an error.
\<close>

theorem CreateAndAwaitListener_counterexample:
  "CreateAndAwaitListener cloud lb1 listener1 start =
     (None,
      \<lparr>calls = [CreateListenerCall ''lb-1'' listener1, GetWorkRequestCall ''wr-quick'',
                GetWorkRequestCall ''wr-quick'', GetWorkRequestCall ''wr-quick''],
       world = 3\<rparr>)"
  by (simp add: CreateAndAwaitListener_def CreateListener_def
      AwaitWorkRequest_def ExponentialBackoff_def backoff_def pollWorkRequest_def
      GetWorkRequest_def invoke_def cloud_def cloudSdk_def start_def workRequestAt_def
      inProgress_def succeeded_def state_defs lb1_def eval_nat_numeral)

section \<open>Node addresses of a vnic\<close>

text \<open>
  C9. For a vnic, with \<open>ParseIP\<close> deciding which strings are addresses:
  a private IP that is present and not an address gives the error for the private
  address; a public IP that is present and not an address gives an error; otherwise the
  result is one internal record when the private IP is present, followed by one external
  record when the public IP is present, and an absent field gives no record and no
  error. A vnic with the private IP 10.0.0.5 and no public IP gives exactly one record,
  the internal address 10.0.0.5.
\<close>

theorem extractNodeAddressesFromVnic_records:
  fixes v :: Vnic
  defines "private \<equiv> Vnic_PrivateIPAddress v" and "public \<equiv> Vnic_PublicIPAddress v"
  shows "(private \<noteq> [] \<and> ParseIP private = None \<longrightarrow>
            extractNodeAddressesFromVnic ParseIP String (Some v) = Inl (InvalidPrivateAddress private)) \<and>
         (public \<noteq> [] \<and> ParseIP public = None \<longrightarrow>
            (\<exists>err. extractNodeAddressesFromVnic ParseIP String (Some v) = Inl err)) \<and>
         (private = [] \<and> public = [] \<longrightarrow>
            extractNodeAddressesFromVnic ParseIP String (Some v) = Inr []) \<and>
         (private \<noteq> [] \<and> ParseIP private = Some a \<and> public = [] \<longrightarrow>
            extractNodeAddressesFromVnic ParseIP String (Some v) =
              Inr [\<lparr>NodeAddress_Type = NodeInternalIP, NodeAddress_Address = String a\<rparr>]) \<and>
         (private = [] \<and> public \<noteq> [] \<and> ParseIP public = Some b \<longrightarrow>
            extractNodeAddressesFromVnic ParseIP String (Some v) =
              Inr [\<lparr>NodeAddress_Type = NodeExternalIP, NodeAddress_Address = String b\<rparr>]) \<and>
         (private \<noteq> [] \<and> ParseIP private = Some a \<and> public \<noteq> [] \<and> ParseIP public = Some b \<longrightarrow>
            extractNodeAddressesFromVnic ParseIP String (Some v) =
              Inr [\<lparr>NodeAddress_Type = NodeInternalIP, NodeAddress_Address = String a\<rparr>,
                   \<lparr>NodeAddress_Type = NodeExternalIP, NodeAddress_Address = String b\<rparr>]) \<and>
         (private = ''10.0.0.5'' \<and> public = [] \<and> ParseIP ''10.0.0.5'' = Some a \<and> String a = ''10.0.0.5'' \<longrightarrow>
            extractNodeAddressesFromVnic ParseIP String (Some v) =
              Inr [\<lparr>NodeAddress_Type = NodeInternalIP, NodeAddress_Address = ''10.0.0.5''\<rparr>])"
  unfolding private_def public_def
  by (auto simp: extractNodeAddressesFromVnic_def split: option.splits)

theorem extractNodeAddressesFromVnic_records_witness:
  "Vnic_PrivateIPAddress vnicApp = ''10.0.0.5'' \<and> Vnic_PublicIPAddress vnicApp = [] \<and>
   cloudParseIP ''10.0.0.5'' = Some ''10.0.0.5'' \<and> cloudIPString ''10.0.0.5'' = ''10.0.0.5'' \<and>
   extractNodeAddressesFromVnic cloudParseIP cloudIPString (Some vnicApp) =
     Inr [\<lparr>NodeAddress_Type = NodeInternalIP, NodeAddress_Address = ''10.0.0.5''\<rparr>] \<and>
   Vnic_PrivateIPAddress (vnicApp\<lparr>Vnic_PrivateIPAddress := ''not-an-ip''\<rparr>) \<noteq> [] \<and>
   cloudParseIP ''not-an-ip'' = None \<and>
   extractNodeAddressesFromVnic cloudParseIP cloudIPString
     (Some (vnicApp\<lparr>Vnic_PrivateIPAddress := ''not-an-ip''\<rparr>)) = Inl (InvalidPrivateAddress ''not-an-ip'') \<and>
   cloudParseIP ''129.146.0.9'' = Some ''129.146.0.9'' \<and>
   extractNodeAddressesFromVnic cloudParseIP cloudIPString (Some vnicWeb) =
     Inr [\<lparr>NodeAddress_Type = NodeInternalIP, NodeAddress_Address = ''10.0.0.6''\<rparr>,
          \<lparr>NodeAddress_Type = NodeExternalIP, NodeAddress_Address = ''129.146.0.9''\<rparr>]"
proof -
  have f: "Vnic_PrivateIPAddress vnicApp = ''10.0.0.5''" "Vnic_PublicIPAddress vnicApp = []"
    "cloudParseIP ''10.0.0.5'' = Some ''10.0.0.5''" "cloudIPString ''10.0.0.5'' = ''10.0.0.5''"
    "Vnic_PrivateIPAddress (vnicApp\<lparr>Vnic_PrivateIPAddress := ''not-an-ip''\<rparr>) = ''not-an-ip''"
    "cloudParseIP ''not-an-ip'' = None"
    "Vnic_PrivateIPAddress vnicWeb = ''10.0.0.6''" "Vnic_PublicIPAddress vnicWeb = ''129.146.0.9''"
    "cloudParseIP ''10.0.0.6'' = Some ''10.0.0.6''" "cloudParseIP ''129.146.0.9'' = Some ''129.146.0.9''"
    by (simp_all add: vnicApp_def vnicWeb_def cloudParseIP_def cloudIPString_def)
  from extractNodeAddressesFromVnic_records[of vnicApp cloudParseIP cloudIPString "''10.0.0.5''"] f
  have r1: "extractNodeAddressesFromVnic cloudParseIP cloudIPString (Some vnicApp) =
     Inr [\<lparr>NodeAddress_Type = NodeInternalIP, NodeAddress_Address = ''10.0.0.5''\<rparr>]"
    by simp
  from extractNodeAddressesFromVnic_records[of "vnicApp\<lparr>Vnic_PrivateIPAddress := ''not-an-ip''\<rparr>"
      cloudParseIP cloudIPString] f
  have r2: "extractNodeAddressesFromVnic cloudParseIP cloudIPString
     (Some (vnicApp\<lparr>Vnic_PrivateIPAddress := ''not-an-ip''\<rparr>)) = Inl (InvalidPrivateAddress ''not-an-ip'')"
    by simp
  from extractNodeAddressesFromVnic_records[of vnicWeb cloudParseIP cloudIPString "''10.0.0.6''" "''129.146.0.9''"] f
  have r3: "extractNodeAddressesFromVnic cloudParseIP cloudIPString (Some vnicWeb) =
     Inr [\<lparr>NodeAddress_Type = NodeInternalIP, NodeAddress_Address = ''10.0.0.6''\<rparr>,
          \<lparr>NodeAddress_Type = NodeExternalIP, NodeAddress_Address = ''129.146.0.9''\<rparr>]"
    by (simp add: cloudIPString_def)
  from f r1 r2 r3 show ?thesis by simp
qed

section \<open>GetSubnetsForInternalIPs\<close>

lemma GetSubnet_answer:
  assumes "fst (sdkGetSubnet (Client c) ocid (world s)) = Inr sn"
  shows "\<exists>s'. GetSubnet c ocid s = (Inr sn, s') \<and> calls s' = calls s @ [GetSubnetCall ocid]"
  using assms by (cases "sdkGetSubnet (Client c) ocid (world s)") (simp add: GetSubnet_def invoke_def)

lemma subnetFetches_append: "subnetFetches (xs @ ys) = subnetFetches xs @ subnetFetches ys"
  by (induction xs rule: subnetFetches.induct) simp_all

lemma remdups_snoc: "remdups (ys @ [x]) = removeAll x (remdups ys) @ [x]"
  by (induction ys) auto

lemma first_seen_Cons:
  "rev (remdups (rev (x # xs))) = x # removeAll x (rev (remdups (rev xs)))"
  by (simp add: remdups_snoc removeAll_filter_not_eq rev_filter)

lemma filter_removeAll_seen:
  "x \<in> seen \<Longrightarrow> filter (\<lambda>y. y \<notin> seen) (removeAll x zs) = filter (\<lambda>y. y \<notin> seen) zs"
  by (induction zs) auto

lemma filter_removeAll_new:
  "filter (\<lambda>y. y \<notin> seen) (removeAll x zs) = filter (\<lambda>y. y \<notin> insert x seen) zs"
  by (induction zs) auto

lemma collectSubnets_first_seen:
  assumes "\<forall>a\<in>set atts. Attachment_State a = ResourceAttached \<longrightarrow>
             (\<forall>w. fst (sdkGetVnic (Client c) (Attachment_VnicID a) w) = Inr (vnicOf (Attachment_VnicID a)))"
    and "\<forall>a\<in>set atts. Attachment_State a = ResourceAttached \<longrightarrow>
             (\<forall>w. fst (sdkGetSubnet (Client c) (Vnic_SubnetID (vnicOf (Attachment_VnicID a))) w) =
                   Inr (subnetOf (Vnic_SubnetID (vnicOf (Attachment_VnicID a)))))"
    and "ids = map (\<lambda>a. Vnic_SubnetID (vnicOf (Attachment_VnicID a)))
                 (filter (\<lambda>a. Attachment_State a = ResourceAttached \<and>
                               Vnic_PrivateIPAddress (vnicOf (Attachment_VnicID a)) \<noteq> [] \<and>
                               Vnic_PrivateIPAddress (vnicOf (Attachment_VnicID a)) \<in> ipSet) atts)"
  shows "\<exists>seen' s'. collectSubnets c ipSet atts seen subnets s =
           (Inr (seen', subnets @ map subnetOf (filter (\<lambda>y. y \<notin> seen) (rev (remdups (rev ids))))), s') \<and>
           subnetFetches (calls s') =
             subnetFetches (calls s) @ filter (\<lambda>y. y \<notin> seen) (rev (remdups (rev ids)))"
  using assms
proof (induction atts arbitrary: ids seen subnets s)
  case Nil
  then show ?case by simp
next
  case (Cons a atts)
  let ?ids = "map (\<lambda>a. Vnic_SubnetID (vnicOf (Attachment_VnicID a)))
                 (filter (\<lambda>a. Attachment_State a = ResourceAttached \<and>
                               Vnic_PrivateIPAddress (vnicOf (Attachment_VnicID a)) \<noteq> [] \<and>
                               Vnic_PrivateIPAddress (vnicOf (Attachment_VnicID a)) \<in> ipSet) atts)"
  let ?D = "rev (remdups (rev ?ids))"
  from Cons.prems(1,2) have rest:
    "\<forall>a\<in>set atts. Attachment_State a = ResourceAttached \<longrightarrow>
       (\<forall>w. fst (sdkGetVnic (Client c) (Attachment_VnicID a) w) = Inr (vnicOf (Attachment_VnicID a)))"
    "\<forall>a\<in>set atts. Attachment_State a = ResourceAttached \<longrightarrow>
       (\<forall>w. fst (sdkGetSubnet (Client c) (Vnic_SubnetID (vnicOf (Attachment_VnicID a))) w) =
             Inr (subnetOf (Vnic_SubnetID (vnicOf (Attachment_VnicID a)))))"
    by simp_all
  note IH = Cons.IH[OF rest refl]
  show ?case
  proof (cases "Attachment_State a = ResourceAttached")
    case False
    with Cons.prems(3) have "ids = ?ids" by simp
    with IH[of seen subnets s] False show ?thesis by simp
  next
    case True
    let ?v = "vnicOf (Attachment_VnicID a)"
    from True Cons.prems(1) have "fst (sdkGetVnic (Client c) (Attachment_VnicID a) (world s)) = Inr ?v"
      by simp
    from GetVnic_answer[OF this] obtain s1 where
      gv: "GetVnic c (Attachment_VnicID a) s = (Inr ?v, s1)"
      and "calls s1 = calls s @ [GetVnicCall (Attachment_VnicID a)]"
      by blast
    then have c1: "subnetFetches (calls s1) = subnetFetches (calls s)"
      by (simp add: subnetFetches_append)
    show ?thesis
    proof (cases "Vnic_PrivateIPAddress ?v \<noteq> [] \<and> Vnic_PrivateIPAddress ?v \<in> ipSet")
      case False
      with Cons.prems(3) have "ids = ?ids" by auto
      with IH[of seen subnets s1] True False gv c1 show ?thesis by auto
    next
      case el: True
      with True Cons.prems(3) have ids: "ids = Vnic_SubnetID ?v # ?ids" by simp
      show ?thesis
      proof (cases "Vnic_SubnetID ?v \<in> seen")
        case sn: True
        then have "filter (\<lambda>y. y \<notin> seen) (rev (remdups (rev ids))) = filter (\<lambda>y. y \<notin> seen) ?D"
          by (simp only: ids first_seen_Cons) (simp add: filter_removeAll_seen)
        with IH[of seen subnets s1] True el sn gv c1 show ?thesis by simp
      next
        case sn: False
        from True Cons.prems(2) have "fst (sdkGetSubnet (Client c) (Vnic_SubnetID ?v) (world s1)) =
            Inr (subnetOf (Vnic_SubnetID ?v))"
          by simp
        from GetSubnet_answer[OF this] obtain s2 where
          gs: "GetSubnet c (Vnic_SubnetID ?v) s1 = (Inr (subnetOf (Vnic_SubnetID ?v)), s2)"
          and "calls s2 = calls s1 @ [GetSubnetCall (Vnic_SubnetID ?v)]"
          by blast
        with c1 have c2: "subnetFetches (calls s2) = subnetFetches (calls s) @ [Vnic_SubnetID ?v]"
          by (simp add: subnetFetches_append)
        from sn have "filter (\<lambda>y. y \<notin> seen) (rev (remdups (rev ids))) =
            Vnic_SubnetID ?v # filter (\<lambda>y. y \<notin> insert (Vnic_SubnetID ?v) seen) ?D"
          by (simp only: ids first_seen_Cons) (simp add: filter_removeAll_new)
        with IH[of "insert (Vnic_SubnetID ?v) seen" "subnets @ [subnetOf (Vnic_SubnetID ?v)]" s2]
          True el sn gv gs c2
        show ?thesis by simp
      qed
    qed
  qed
qed

text \<open>
  C8, for a listing of one page. Let the listing of vnic attachments, called without
  options, answer with a page that has no cursor, and let the vnics of its Attached
  attachments, and the subnets of those vnics, be fetched without error.
  \<open>GetSubnetsForInternalIPs\<close> considers the Attached attachments whose vnic has a private
  IP that is not empty and is one of the given IPs; the state of the vnic plays no part.
  It returns the subnets of those vnics, each subnet id once, in the order in which the
  ids are first met, and it fetches each of these subnets exactly once. With no IP
  given, or no vnic considered, the result is the empty list and not an error.
\<close>

theorem GetSubnetsForInternalIPs_distinct:
  assumes "fst (sdkListVnicAttachments (Client c) (compartmentOCID c) None (world s)) = Inr page"
    and "NextPage page = []"
    and "\<forall>a\<in>set (Attachments page). Attachment_State a = ResourceAttached \<longrightarrow>
             (\<forall>w. fst (sdkGetVnic (Client c) (Attachment_VnicID a) w) = Inr (vnicOf (Attachment_VnicID a)))"
    and "\<forall>a\<in>set (Attachments page). Attachment_State a = ResourceAttached \<longrightarrow>
             (\<forall>w. fst (sdkGetSubnet (Client c) (Vnic_SubnetID (vnicOf (Attachment_VnicID a))) w) =
                   Inr (subnetOf (Vnic_SubnetID (vnicOf (Attachment_VnicID a)))))"
    and "ids = map (\<lambda>a. Vnic_SubnetID (vnicOf (Attachment_VnicID a)))
                 (filter (\<lambda>a. Attachment_State a = ResourceAttached \<and>
                               Vnic_PrivateIPAddress (vnicOf (Attachment_VnicID a)) \<noteq> [] \<and>
                               Vnic_PrivateIPAddress (vnicOf (Attachment_VnicID a)) \<in> set ips)
                    (Attachments page))"
  shows "\<exists>s'. GetSubnetsForInternalIPs c ips s = Some (Inr (map subnetOf (rev (remdups (rev ids)))), s') \<and>
           subnetFetches (calls s') = subnetFetches (calls s) @ rev (remdups (rev ids)) \<and>
           distinct (rev (remdups (rev ids))) \<and> set (rev (remdups (rev ids))) = set ids \<and>
           (ips = [] \<or> ids = [] \<longrightarrow> GetSubnetsForInternalIPs c ips s = Some (Inr [], s'))"
proof -
  from ListVnicAttachments_answer[OF assms(1)] obtain s1 where
    la: "ListVnicAttachments c (compartmentOCID c) None s = (Inr page, s1)"
    and "calls s1 = calls s @ [ListVnicAttachmentsCall (compartmentOCID c) None]"
    by blast
  then have c1: "subnetFetches (calls s1) = subnetFetches (calls s)"
    by (simp add: subnetFetches_append)
  from collectSubnets_first_seen[OF assms(3,4,5), of "{}" "[]" s1] obtain seen' s' where
    co: "collectSubnets c (set ips) (Attachments page) {} [] s1 =
           (Inr (seen', map subnetOf (rev (remdups (rev ids)))), s')"
    and c2: "subnetFetches (calls s') = subnetFetches (calls s1) @ rev (remdups (rev ids))"
    by auto
  have run: "GetSubnetsForInternalIPs c ips s = Some (Inr (map subnetOf (rev (remdups (rev ids)))), s')"
    unfolding GetSubnetsForInternalIPs_def
    by (subst listSubnets.simps) (simp add: la co assms(2) SetNextPageOption_def)
  moreover from assms(5) have "ips = [] \<Longrightarrow> ids = []" by simp
  ultimately show ?thesis using c1 c2 by auto
qed

theorem GetSubnetsForInternalIPs_distinct_witness:
  "fst (sdkListVnicAttachments (Client flat) (compartmentOCID flat) None (world start)) =
     Inr \<lparr>NextPage = [], Attachments = [attApp, attOld, attWeb, attSpare, attApp]\<rparr> \<and>
   (\<forall>w. fst (sdkGetVnic (Client flat) ''v-app'' w) = Inr vnicApp) \<and>
   (\<forall>w. fst (sdkGetVnic (Client flat) ''v-web'' w) = Inr vnicWeb) \<and>
   (\<forall>w. fst (sdkGetVnic (Client flat) ''v-spare'' w) = Inr vnicSpare) \<and>
   (\<forall>w. fst (sdkGetSubnet (Client flat) ''subnet-a'' w) = Inr subnetA) \<and>
   (\<forall>w. fst (sdkGetSubnet (Client flat) ''subnet-b'' w) = Inr subnetB) \<and>
   (\<exists>s'. GetSubnetsForInternalIPs flat [''10.0.0.5'', ''10.0.0.6'', ''10.0.1.7''] start =
            Some (Inr [subnetA, subnetB], s') \<and>
          subnetFetches (calls s') = [''subnet-a'', ''subnet-b'']) \<and>
   (\<exists>s'. GetSubnetsForInternalIPs flat [] start = Some (Inr [], s') \<and> subnetFetches (calls s') = [])"
proof -
  let ?page = "\<lparr>NextPage = [], Attachments = [attApp, attOld, attWeb, attSpare, attApp]\<rparr>"
  have h1: "fst (sdkListVnicAttachments (Client flat) (compartmentOCID flat) None (world start)) = Inr ?page"
    by (simp add: flat_def cloudSdk_def)
  have h2: "NextPage ?page = []" by simp
  have h3: "\<forall>a\<in>set (Attachments ?page). Attachment_State a = ResourceAttached \<longrightarrow>
      (\<forall>w. fst (sdkGetVnic (Client flat) (Attachment_VnicID a) w) = Inr (vnicTable (Attachment_VnicID a)))"
    by (simp add: fixture_defs state_defs)
  have h4: "\<forall>a\<in>set (Attachments ?page). Attachment_State a = ResourceAttached \<longrightarrow>
      (\<forall>w. fst (sdkGetSubnet (Client flat) (Vnic_SubnetID (vnicTable (Attachment_VnicID a))) w) =
            Inr (subnetTable (Vnic_SubnetID (vnicTable (Attachment_VnicID a)))))"
    by (simp add: fixture_defs state_defs)
  have lookups: "(\<forall>w. fst (sdkGetVnic (Client flat) ''v-app'' w) = Inr vnicApp) \<and>
   (\<forall>w. fst (sdkGetVnic (Client flat) ''v-web'' w) = Inr vnicWeb) \<and>
   (\<forall>w. fst (sdkGetVnic (Client flat) ''v-spare'' w) = Inr vnicSpare) \<and>
   (\<forall>w. fst (sdkGetSubnet (Client flat) ''subnet-a'' w) = Inr subnetA) \<and>
   (\<forall>w. fst (sdkGetSubnet (Client flat) ''subnet-b'' w) = Inr subnetB)"
    by (simp add: flat_def cloudSdk_def vnicAt_def subnetAt_def)
  have ids: "[''subnet-a'', ''subnet-a'', ''subnet-b'', ''subnet-a''] =
      map (\<lambda>a. Vnic_SubnetID (vnicTable (Attachment_VnicID a)))
        (filter (\<lambda>a. Attachment_State a = ResourceAttached \<and>
                      Vnic_PrivateIPAddress (vnicTable (Attachment_VnicID a)) \<noteq> [] \<and>
                      Vnic_PrivateIPAddress (vnicTable (Attachment_VnicID a)) \<in>
                        set [''10.0.0.5'', ''10.0.0.6'', ''10.0.1.7''])
           (Attachments ?page))"
    by (simp add: attApp_def attOld_def attWeb_def attSpare_def vnicTable_def vnicAt_def
        vnicApp_def vnicWeb_def vnicSpare_def state_defs)
  have tab: "subnetTable ''subnet-a'' = subnetA" "subnetTable ''subnet-b'' = subnetB"
    by (simp_all add: subnetTable_def subnetAt_def)
  have r1: "\<exists>s'. GetSubnetsForInternalIPs flat [''10.0.0.5'', ''10.0.0.6'', ''10.0.1.7''] start =
            Some (Inr [subnetA, subnetB], s') \<and>
          subnetFetches (calls s') = [''subnet-a'', ''subnet-b'']"
    using GetSubnetsForInternalIPs_distinct[OF h1 h2 h3 h4 ids]
    by (auto simp add: tab start_def)
  have r2: "\<exists>s'. GetSubnetsForInternalIPs flat [] start = Some (Inr [], s') \<and> subnetFetches (calls s') = []"
    using GetSubnetsForInternalIPs_distinct[OF h1 h2 h3 h4 refl, of "[]"]
    by (auto simp add: start_def)
  from h1 lookups r1 r2 show ?thesis by blast
qed

text \<open>
  The claim C8 as it is written has only vnics in the Available state considered. The
  vnic of the attachment \<open>attSpare\<close> is Terminating; its private IP is among the IPs
  asked for, and its subnet is fetched and returned.
\<close>

theorem GetSubnetsForInternalIPs_state_counterexample:
  "Attachment_VnicID attSpare = ''v-spare'' \<and> vnicAt ''v-spare'' = Inr vnicSpare \<and>
   Vnic_State vnicSpare \<noteq> ResourceAvailable \<and>
   GetSubnetsForInternalIPs flat [''10.0.1.7''] start =
     Some (Inr [subnetB],
           \<lparr>calls = [ListVnicAttachmentsCall ''compartment-1'' None, GetVnicCall ''v-app'',
                     GetVnicCall ''v-web'', GetVnicCall ''v-spare'', GetSubnetCall ''subnet-b'',
                     GetVnicCall ''v-app''],
            world = 0\<rparr>)"
  by (simp add: GetSubnetsForInternalIPs_def listSubnets.simps SetNextPageOption_def sdk_defs
      fixture_defs state_defs)

text \<open>
  The loop of \<open>GetSubnetsForInternalIPs\<close> stores the cursor in its options and calls the
  listing with nil options. On the small cloud, whose listing of attachments has two
  pages, every call is answered with the first page and its cursor: the second page is
  never requested and the function does not return.
\<close>

lemma listSubnets_cloud:
  assumes "listSubnets c ipSet opts subnetOCIDs subnets s = Some y"
  shows "c \<noteq> cloud"
  using assms
  by (rule listSubnets.raw_induct[where P = "\<lambda>c ipSet opts subnetOCIDs subnets s y. c \<noteq> cloud", rotated])
    (auto simp: SetNextPageOption_def sdk_defs fixture_defs state_defs split: prod.splits sum.splits if_splits)

lemma GetSubnetsForInternalIPs_second_page_never_requested:
  "NextPage (attachmentPage None) = ''2'' \<and>
   GetSubnetsForInternalIPs cloud [''10.0.0.5'', ''10.0.0.6''] start = None"
proof -
  have "listSubnets cloud ipSet opts subnetOCIDs subnets s = None" for ipSet opts subnetOCIDs subnets s
    using listSubnets_cloud[of cloud ipSet opts subnetOCIDs subnets s]
    by (cases "listSubnets cloud ipSet opts subnetOCIDs subnets s") auto
  then show ?thesis by (simp add: GetSubnetsForInternalIPs_def attachmentPage_def)
qed

section \<open>The pagination loops\<close>

lemma availableAttached_Cons:
  "availableAttached vnicOf (a # atts) =
     (if Attachment_State a = ResourceAttached \<and> Vnic_State (vnicOf (Attachment_VnicID a)) = ResourceAvailable
      then [vnicOf (Attachment_VnicID a)] else []) @ availableAttached vnicOf atts"
  by (simp add: availableAttached_def)

lemma availableAttached_append:
  "availableAttached vnicOf (xs @ ys) = availableAttached vnicOf xs @ availableAttached vnicOf ys"
  by (simp add: availableAttached_def)

lemma availableVnics_kept:
  assumes "\<forall>a\<in>set atts. Attachment_State a = ResourceAttached \<longrightarrow>
             (\<forall>w. fst (sdkGetVnic (Client c) (Attachment_VnicID a) w) = Inr (vnicOf (Attachment_VnicID a)))"
  shows "\<exists>s'. availableVnics c atts vnics s = (Inr (vnics @ availableAttached vnicOf atts), s') \<and>
              filter listingCall (calls s') = filter listingCall (calls s)"
  using assms
proof (induction atts arbitrary: vnics s)
  case Nil
  then show ?case by (simp add: availableAttached_def)
next
  case (Cons a atts)
  from Cons.prems have rest:
    "\<forall>a\<in>set atts. Attachment_State a = ResourceAttached \<longrightarrow>
       (\<forall>w. fst (sdkGetVnic (Client c) (Attachment_VnicID a) w) = Inr (vnicOf (Attachment_VnicID a)))"
    by simp
  note IH = Cons.IH[OF rest]
  show ?case
  proof (cases "Attachment_State a = ResourceAttached")
    case False
    with IH[of vnics s] show ?thesis by (simp add: availableAttached_Cons)
  next
    case True
    with Cons.prems have "fst (sdkGetVnic (Client c) (Attachment_VnicID a) (world s)) =
        Inr (vnicOf (Attachment_VnicID a))"
      by simp
    from GetVnic_answer[OF this] obtain s1 where
      gv: "GetVnic c (Attachment_VnicID a) s = (Inr (vnicOf (Attachment_VnicID a)), s1)"
      and "calls s1 = calls s @ [GetVnicCall (Attachment_VnicID a)]"
      by blast
    then have c1: "filter listingCall (calls s1) = filter listingCall (calls s)" by simp
    show ?thesis
    proof (cases "Vnic_State (vnicOf (Attachment_VnicID a)) = ResourceAvailable")
      case av: True
      with IH[of "vnics @ [vnicOf (Attachment_VnicID a)]" s1] True gv c1 show ?thesis
        by (simp add: availableAttached_Cons)
    next
      case av: False
      with IH[of vnics s1] True gv c1 show ?thesis
        by (simp add: availableAttached_Cons)
    qed
  qed
qed

lemma listAttachedVnics_kept:
  assumes "answers (\<lambda>opts. sdkListVnicAttachments (Client c) (compartmentOCID c) (Some opts)) opts pages"
    and "pages \<noteq> []" and "NextPage (last pages) = []"
    and "\<forall>a\<in>set (concat (map Attachments pages)). Attachment_State a = ResourceAttached \<longrightarrow>
             (\<forall>w. fst (sdkGetVnic (Client c) (Attachment_VnicID a) w) = Inr (vnicOf (Attachment_VnicID a)))"
  shows "\<exists>s'. listAttachedVnics c opts vnics s =
           Some (Inr (vnics @ availableAttached vnicOf (concat (map Attachments pages))), s') \<and>
           filter listingCall (calls s') = filter listingCall (calls s) @
             map (\<lambda>opts. ListVnicAttachmentsCall (compartmentOCID c) (Some opts)) (fedOptions opts pages)"
  using assms
proof (induction pages arbitrary: opts vnics s)
  case Nil
  then show ?case by simp
next
  case (Cons p ps)
  from Cons.prems(1) have "fst (sdkListVnicAttachments (Client c) (compartmentOCID c) (Some opts) (world s)) = Inr p"
    by simp
  from ListVnicAttachments_answer[OF this] obtain s1 where
    la: "ListVnicAttachments c (compartmentOCID c) (Some opts) s = (Inr p, s1)"
    and c1: "calls s1 = calls s @ [ListVnicAttachmentsCall (compartmentOCID c) (Some opts)]"
    by blast
  from Cons.prems(4) have here:
    "\<forall>a\<in>set (Attachments p). Attachment_State a = ResourceAttached \<longrightarrow>
       (\<forall>w. fst (sdkGetVnic (Client c) (Attachment_VnicID a) w) = Inr (vnicOf (Attachment_VnicID a)))"
    by simp
  from availableVnics_kept[OF here, of vnics s1] obtain s2 where
    av: "availableVnics c (Attachments p) vnics s1 = (Inr (vnics @ availableAttached vnicOf (Attachments p)), s2)"
    and "filter listingCall (calls s2) = filter listingCall (calls s1)"
    by blast
  with c1 have c2: "filter listingCall (calls s2) =
      filter listingCall (calls s) @ [ListVnicAttachmentsCall (compartmentOCID c) (Some opts)]"
    by simp
  show ?case
  proof (cases "ps = []")
    case True
    with Cons.prems(3) have "NextPage p = []" by simp
    with True la av c2 show ?thesis
      by (subst listAttachedVnics.simps) (simp add: SetNextPageOption_def)
  next
    case False
    with Cons.prems(1) have np: "NextPage p \<noteq> []"
      and an: "answers (\<lambda>opts. sdkListVnicAttachments (Client c) (compartmentOCID c) (Some opts))
                 (opts\<lparr>Page := NextPage p\<rparr>) ps"
      by simp_all
    from False Cons.prems(3) have lst: "NextPage (last ps) = []" by simp
    from Cons.prems(4) have later:
      "\<forall>a\<in>set (concat (map Attachments ps)). Attachment_State a = ResourceAttached \<longrightarrow>
         (\<forall>w. fst (sdkGetVnic (Client c) (Attachment_VnicID a) w) = Inr (vnicOf (Attachment_VnicID a)))"
      by simp
    from Cons.IH[OF an False lst later, of "vnics @ availableAttached vnicOf (Attachments p)" s2]
    obtain s' where "listAttachedVnics c (opts\<lparr>Page := NextPage p\<rparr>)
        (vnics @ availableAttached vnicOf (Attachments p)) s2 =
        Some (Inr ((vnics @ availableAttached vnicOf (Attachments p)) @
                   availableAttached vnicOf (concat (map Attachments ps))), s')"
      and "filter listingCall (calls s') = filter listingCall (calls s2) @
             map (\<lambda>opts. ListVnicAttachmentsCall (compartmentOCID c) (Some opts))
               (fedOptions (opts\<lparr>Page := NextPage p\<rparr>) ps)"
      by blast
    with np la av c2 show ?thesis
      by (subst listAttachedVnics.simps) (simp add: SetNextPageOption_def availableAttached_append)
  qed
qed

lemma listing_calls_only:
  "filter listingCall (map (ListInstancesCall compartment) os) = map (ListInstancesCall compartment) os"
  by (induction os) simp_all

text \<open>
  C1, for the loops that gather the items of all the pages: the loops of
  \<open>GetInstanceByNodeName\<close>, of \<open>findInstanceByNodeNameIsVnic\<close> and of
  \<open>GetAttachedVnicsForInstance\<close>. Let the listing give the pages P1..Pn, of which only
  the last has no cursor (and, in the two loops over vnic attachments, let the vnics and
  instances of the Attached attachments be fetched without error). Then the loop
  returns; it requests a page exactly n times, the first time with the options it
  started with and each later time with the cursor of the page before; and its result
  is what it had, followed by the filtered items of P1, ..., Pn in this order.
\<close>

theorem pagination_loops_return:
  "(serves (sdkListInstances (Client c) (compartmentOCID c)) iopts (world s) ipages \<and>
      ipages \<noteq> [] \<and> NextPage (last ipages) = [] \<longrightarrow>
    (\<exists>s'. listRunningInstances c iopts running s =
        Some (Inr (running @ filter (\<lambda>i. Instance_State i = ResourceRunning) (concat (map Instances ipages))), s') \<and>
      filter listingCall (calls s') = filter listingCall (calls s) @
        map (ListInstancesCall (compartmentOCID c)) (fedOptions iopts ipages) \<and>
      length (fedOptions iopts ipages) = length ipages)) \<and>
   (answers (\<lambda>opts. sdkListVnicAttachments (Client c) (compartmentOCID c) (Some opts)) vopts vpages \<and>
      vpages \<noteq> [] \<and> NextPage (last vpages) = [] \<and>
      (\<forall>a\<in>set (concat (map Attachments vpages)). Attachment_State a = ResourceAttached \<longrightarrow>
         (\<forall>w. fst (sdkGetVnic (Client c) (Attachment_VnicID a) w) = Inr (vnicOf (Attachment_VnicID a))) \<and>
         (\<forall>w. fst (sdkGetInstance (Client c) (Attachment_InstanceID a) w) =
               Inr (instanceOf (Attachment_InstanceID a)))) \<longrightarrow>
    (\<exists>s'. scanVnicAttachments c nodeName vopts running s =
        Some (Inr (running @ keptInstances nodeName vnicOf instanceOf (concat (map Attachments vpages))), s') \<and>
      filter listingCall (calls s') = filter listingCall (calls s) @
        map (\<lambda>opts. ListVnicAttachmentsCall (compartmentOCID c) (Some opts)) (fedOptions vopts vpages) \<and>
      length (fedOptions vopts vpages) = length vpages) \<and>
    (\<exists>s'. listAttachedVnics c vopts vnics s =
        Some (Inr (vnics @ availableAttached vnicOf (concat (map Attachments vpages))), s') \<and>
      filter listingCall (calls s') = filter listingCall (calls s) @
        map (\<lambda>opts. ListVnicAttachmentsCall (compartmentOCID c) (Some opts)) (fedOptions vopts vpages) \<and>
      length (fedOptions vopts vpages) = length vpages))"
proof (rule conjI; rule impI)
  assume h: "serves (sdkListInstances (Client c) (compartmentOCID c)) iopts (world s) ipages \<and>
      ipages \<noteq> [] \<and> NextPage (last ipages) = []"
  then have "\<exists>w'. listRunningInstances c iopts running s =
      Some (Inr (running @ filter (\<lambda>i. Instance_State i = ResourceRunning) (concat (map Instances ipages))),
            \<lparr>calls = calls s @ map (ListInstancesCall (compartmentOCID c)) (fedOptions iopts ipages), world = w'\<rparr>)"
    by (intro listRunningInstances_serves) simp_all
  then show "\<exists>s'. listRunningInstances c iopts running s =
        Some (Inr (running @ filter (\<lambda>i. Instance_State i = ResourceRunning) (concat (map Instances ipages))), s') \<and>
      filter listingCall (calls s') = filter listingCall (calls s) @
        map (ListInstancesCall (compartmentOCID c)) (fedOptions iopts ipages) \<and>
      length (fedOptions iopts ipages) = length ipages"
    by (auto simp: listing_calls_only length_fedOptions)
next
  assume h: "answers (\<lambda>opts. sdkListVnicAttachments (Client c) (compartmentOCID c) (Some opts)) vopts vpages \<and>
      vpages \<noteq> [] \<and> NextPage (last vpages) = [] \<and>
      (\<forall>a\<in>set (concat (map Attachments vpages)). Attachment_State a = ResourceAttached \<longrightarrow>
         (\<forall>w. fst (sdkGetVnic (Client c) (Attachment_VnicID a) w) = Inr (vnicOf (Attachment_VnicID a))) \<and>
         (\<forall>w. fst (sdkGetInstance (Client c) (Attachment_InstanceID a) w) =
               Inr (instanceOf (Attachment_InstanceID a))))"
  then have a: "answers (\<lambda>opts. sdkListVnicAttachments (Client c) (compartmentOCID c) (Some opts)) vopts vpages"
    and n: "vpages \<noteq> []" and l: "NextPage (last vpages) = []"
    and v: "\<forall>a\<in>set (concat (map Attachments vpages)). Attachment_State a = ResourceAttached \<longrightarrow>
         (\<forall>w. fst (sdkGetVnic (Client c) (Attachment_VnicID a) w) = Inr (vnicOf (Attachment_VnicID a)))"
    and i: "\<forall>a\<in>set (concat (map Attachments vpages)). Attachment_State a = ResourceAttached \<longrightarrow>
         (\<forall>w. fst (sdkGetInstance (Client c) (Attachment_InstanceID a) w) =
               Inr (instanceOf (Attachment_InstanceID a)))"
    by blast+
  from scanVnicAttachments_kept[OF a n l v i, of nodeName running s]
    listAttachedVnics_kept[OF a n l v, of vnics s]
  show "(\<exists>s'. scanVnicAttachments c nodeName vopts running s =
        Some (Inr (running @ keptInstances nodeName vnicOf instanceOf (concat (map Attachments vpages))), s') \<and>
      filter listingCall (calls s') = filter listingCall (calls s) @
        map (\<lambda>opts. ListVnicAttachmentsCall (compartmentOCID c) (Some opts)) (fedOptions vopts vpages) \<and>
      length (fedOptions vopts vpages) = length vpages) \<and>
    (\<exists>s'. listAttachedVnics c vopts vnics s =
        Some (Inr (vnics @ availableAttached vnicOf (concat (map Attachments vpages))), s') \<and>
      filter listingCall (calls s') = filter listingCall (calls s) @
        map (\<lambda>opts. ListVnicAttachmentsCall (compartmentOCID c) (Some opts)) (fedOptions vopts vpages) \<and>
      length (fedOptions vopts vpages) = length vpages)"
    by (simp add: length_fedOptions)
qed

theorem pagination_loops_return_witness:
  "serves (sdkListInstances (Client cloud) (compartmentOCID cloud))
     \<lparr>Page = [], DisplayName = ''web-1''\<rparr> (world start)
     [\<lparr>NextPage = ''2'', Instances = [web1old]\<rparr>, \<lparr>NextPage = [], Instances = [web1]\<rparr>] \<and>
   (\<exists>s'. listRunningInstances cloud \<lparr>Page = [], DisplayName = ''web-1''\<rparr> [] start = Some (Inr [web1], s') \<and>
      filter listingCall (calls s') =
        [ListInstancesCall ''compartment-1'' \<lparr>Page = [], DisplayName = ''web-1''\<rparr>,
         ListInstancesCall ''compartment-1'' \<lparr>Page = ''2'', DisplayName = ''web-1''\<rparr>]) \<and>
   answers (\<lambda>opts. sdkListVnicAttachments (Client cloud) (compartmentOCID cloud) (Some opts))
     \<lparr>Page = [], InstanceID = ''i-app1''\<rparr>
     [\<lparr>NextPage = ''2'', Attachments = [attApp, attOld]\<rparr>, \<lparr>NextPage = [], Attachments = [attWeb, attSpare]\<rparr>] \<and>
   (\<forall>w. fst (sdkGetVnic (Client cloud) ''v-app'' w) = Inr vnicApp) \<and>
   (\<forall>w. fst (sdkGetVnic (Client cloud) ''v-web'' w) = Inr vnicWeb) \<and>
   (\<forall>w. fst (sdkGetVnic (Client cloud) ''v-spare'' w) = Inr vnicSpare) \<and>
   (\<forall>w. fst (sdkGetInstance (Client cloud) ''i-app1'' w) = Inr app1) \<and>
   (\<forall>w. fst (sdkGetInstance (Client cloud) ''i-web1'' w) = Inr web1) \<and>
   (\<exists>s'. scanVnicAttachments cloud ''129.146.0.9'' \<lparr>Page = [], InstanceID = ''i-app1''\<rparr> [] start =
        Some (Inr [web1], s') \<and>
      filter listingCall (calls s') =
        [ListVnicAttachmentsCall ''compartment-1'' (Some \<lparr>Page = [], InstanceID = ''i-app1''\<rparr>),
         ListVnicAttachmentsCall ''compartment-1'' (Some \<lparr>Page = ''2'', InstanceID = ''i-app1''\<rparr>)]) \<and>
   (\<exists>s'. listAttachedVnics cloud \<lparr>Page = [], InstanceID = ''i-app1''\<rparr> [] start =
        Some (Inr [vnicApp, vnicWeb], s') \<and>
      filter listingCall (calls s') =
        [ListVnicAttachmentsCall ''compartment-1'' (Some \<lparr>Page = [], InstanceID = ''i-app1''\<rparr>),
         ListVnicAttachmentsCall ''compartment-1'' (Some \<lparr>Page = ''2'', InstanceID = ''i-app1''\<rparr>)])"
proof -
  let ?ipages = "[\<lparr>NextPage = ''2'', Instances = [web1old]\<rparr>, \<lparr>NextPage = [], Instances = [web1]\<rparr>]"
  let ?vpages = "[\<lparr>NextPage = ''2'', Attachments = [attApp, attOld]\<rparr>,
                  \<lparr>NextPage = [], Attachments = [attWeb, attSpare]\<rparr>]"
  have h1: "serves (sdkListInstances (Client cloud) (compartmentOCID cloud))
     \<lparr>Page = [], DisplayName = ''web-1''\<rparr> (world start) ?ipages"
    by (simp add: fixture_defs)
  have h2: "answers (\<lambda>opts. sdkListVnicAttachments (Client cloud) (compartmentOCID cloud) (Some opts))
     \<lparr>Page = [], InstanceID = ''i-app1''\<rparr> ?vpages"
    by (simp add: fixture_defs)
  have h3: "\<forall>a\<in>set (concat (map Attachments ?vpages)). Attachment_State a = ResourceAttached \<longrightarrow>
         (\<forall>w. fst (sdkGetVnic (Client cloud) (Attachment_VnicID a) w) = Inr (vnicTable (Attachment_VnicID a))) \<and>
         (\<forall>w. fst (sdkGetInstance (Client cloud) (Attachment_InstanceID a) w) =
               Inr (instanceTable (Attachment_InstanceID a)))"
    by (simp add: fixture_defs state_defs)
  have lookups: "(\<forall>w. fst (sdkGetVnic (Client cloud) ''v-app'' w) = Inr vnicApp) \<and>
      (\<forall>w. fst (sdkGetVnic (Client cloud) ''v-web'' w) = Inr vnicWeb) \<and>
      (\<forall>w. fst (sdkGetVnic (Client cloud) ''v-spare'' w) = Inr vnicSpare) \<and>
      (\<forall>w. fst (sdkGetInstance (Client cloud) ''i-app1'' w) = Inr app1) \<and>
      (\<forall>w. fst (sdkGetInstance (Client cloud) ''i-web1'' w) = Inr web1)"
    by (simp add: cloud_def cloudSdk_def vnicAt_def instanceAt_def)
  have k: "keptInstances ''129.146.0.9'' vnicTable instanceTable (concat (map Attachments ?vpages)) = [web1]"
    by (simp add: keptInstances_def matchesNodeName_def fixture_defs state_defs)
  have av: "availableAttached vnicTable (concat (map Attachments ?vpages)) = [vnicApp, vnicWeb]"
    by (simp add: availableAttached_def fixture_defs state_defs)
  have f: "filter (\<lambda>i. Instance_State i = ResourceRunning) (concat (map Instances ?ipages)) = [web1]"
    by (simp add: fixture_defs state_defs)
  note inst = pagination_loops_return[of cloud "\<lparr>Page = [], DisplayName = ''web-1''\<rparr>" start ?ipages "[]"
      "\<lparr>Page = [], InstanceID = ''i-app1''\<rparr>" ?vpages vnicTable instanceTable "''129.146.0.9''" "[]"]
  from inst h1 f have r1: "\<exists>s'. listRunningInstances cloud \<lparr>Page = [], DisplayName = ''web-1''\<rparr> [] start =
        Some (Inr [web1], s') \<and>
      filter listingCall (calls s') =
        [ListInstancesCall ''compartment-1'' \<lparr>Page = [], DisplayName = ''web-1''\<rparr>,
         ListInstancesCall ''compartment-1'' \<lparr>Page = ''2'', DisplayName = ''web-1''\<rparr>]"
    by (simp add: cloud_def start_def)
  from inst h2 h3 k av have r23: "(\<exists>s'. scanVnicAttachments cloud ''129.146.0.9'' \<lparr>Page = [], InstanceID = ''i-app1''\<rparr> [] start =
        Some (Inr [web1], s') \<and>
      filter listingCall (calls s') =
        [ListVnicAttachmentsCall ''compartment-1'' (Some \<lparr>Page = [], InstanceID = ''i-app1''\<rparr>),
         ListVnicAttachmentsCall ''compartment-1'' (Some \<lparr>Page = ''2'', InstanceID = ''i-app1''\<rparr>)]) \<and>
   (\<exists>s'. listAttachedVnics cloud \<lparr>Page = [], InstanceID = ''i-app1''\<rparr> [] start =
        Some (Inr [vnicApp, vnicWeb], s') \<and>
      filter listingCall (calls s') =
        [ListVnicAttachmentsCall ''compartment-1'' (Some \<lparr>Page = [], InstanceID = ''i-app1''\<rparr>),
         ListVnicAttachmentsCall ''compartment-1'' (Some \<lparr>Page = ''2'', InstanceID = ''i-app1''\<rparr>)])"
    by (simp add: cloud_def start_def)
  from h1 h2 lookups r1 r23 show ?thesis by blast
qed

text \<open>
  The claim C1 as it is written has a repeated cursor surfaced as an error. No loop
  compares a cursor with the one before. On a backend whose listing of instances
  answers every request, with or without cursor, with the same cursor,
  \<open>GetInstanceByNodeName\<close> asks again and again: it returns neither an error nor a
  result.
\<close>

lemma listRunningInstances_stuck:
  assumes "listRunningInstances c opts running s = Some y"
  shows "c \<noteq> stuck"
  using assms
  by (rule listRunningInstances.raw_induct[where P = "\<lambda>c opts running s y. c \<noteq> stuck", rotated])
    (auto simp: stuck_def cloudSdk_def ListInstances_def invoke_def SetNextPageOption_def
      split: prod.splits sum.splits if_splits)

theorem same_cursor_counterexample:
  "fst (sdkListInstances (Client stuck) (compartmentOCID stuck) \<lparr>Page = [], DisplayName = ''web-1''\<rparr> 0) =
     Inr \<lparr>NextPage = ''again'', Instances = []\<rparr> \<and>
   fst (sdkListInstances (Client stuck) (compartmentOCID stuck) \<lparr>Page = ''again'', DisplayName = ''web-1''\<rparr> 0) =
     Inr \<lparr>NextPage = ''again'', Instances = []\<rparr> \<and>
   GetInstanceByNodeName stuck ''web-1'' start = None"
proof -
  have "listRunningInstances stuck opts running s = None" for opts running s
    using listRunningInstances_stuck[of stuck opts running s]
    by (cases "listRunningInstances stuck opts running s") auto
  then show ?thesis by (simp add: GetInstanceByNodeName_def) (simp add: stuck_def cloudSdk_def)
qed

section \<open>The schedule of AwaitWorkRequest\<close>










end
